theory Spec2Isabelle
  imports Complex_Main "HOL-Library.Stream" "HOL-Library.Multiset"
begin

section \<open>JavaScript numbers\<close>

text \<open>
  A JavaScript number is modelled as a real number or one of the three special values of
  IEEE 754. Arithmetic on finite values is exact real arithmetic: rounding and overflow are
  not modelled, and a zero is the positive zero. The special values are kept because the
  code can produce them from finite inputs (\<open>Math.log(0)\<close>, a division by zero,
  \<open>parseFloat\<close> of a text that is not a number).
\<close>

datatype jsnum = Num real | PInf | NInf | NaN

fun isNaN :: "jsnum \<Rightarrow> bool" where
  "isNaN NaN = True"
| "isNaN _ = False"

text \<open>\<open>Math.log\<close>: the logarithm of zero is minus infinity, of a negative number NaN.\<close>

fun js_log :: "jsnum \<Rightarrow> jsnum" where
  "js_log (Num a) = (if a < 0 then NaN else if a = 0 then NInf else Num (ln a))"
| "js_log PInf = PInf"
| "js_log NInf = NaN"
| "js_log NaN = NaN"

text \<open>\<open>Math.sqrt\<close>.\<close>

fun js_sqrt :: "jsnum \<Rightarrow> jsnum" where
  "js_sqrt (Num a) = (if a < 0 then NaN else Num (sqrt a))"
| "js_sqrt PInf = PInf"
| "js_sqrt NInf = NaN"
| "js_sqrt NaN = NaN"

text \<open>The operator \<open>*\<close>: zero times infinity is NaN.\<close>

fun js_mul :: "jsnum \<Rightarrow> jsnum \<Rightarrow> jsnum" where
  "js_mul (Num a) (Num b) = Num (a * b)"
| "js_mul (Num a) PInf = (if a = 0 then NaN else if 0 < a then PInf else NInf)"
| "js_mul (Num a) NInf = (if a = 0 then NaN else if 0 < a then NInf else PInf)"
| "js_mul PInf (Num b) = (if b = 0 then NaN else if 0 < b then PInf else NInf)"
| "js_mul NInf (Num b) = (if b = 0 then NaN else if 0 < b then NInf else PInf)"
| "js_mul PInf PInf = PInf"
| "js_mul PInf NInf = NInf"
| "js_mul NInf PInf = NInf"
| "js_mul NInf NInf = PInf"
| "js_mul NaN _ = NaN"
| "js_mul _ NaN = NaN"

text \<open>The operator \<open>/\<close>: a finite nonzero number over zero is an infinity, zero over zero
  and infinity over infinity are NaN.\<close>

fun js_div :: "jsnum \<Rightarrow> jsnum \<Rightarrow> jsnum" where
  "js_div (Num a) (Num b) =
     (if b = 0 then (if a = 0 then NaN else if 0 < a then PInf else NInf) else Num (a / b))"
| "js_div (Num a) PInf = Num 0"
| "js_div (Num a) NInf = Num 0"
| "js_div PInf (Num b) = (if 0 \<le> b then PInf else NInf)"
| "js_div NInf (Num b) = (if 0 \<le> b then NInf else PInf)"
| "js_div PInf PInf = NaN"
| "js_div PInf NInf = NaN"
| "js_div NInf PInf = NaN"
| "js_div NInf NInf = NaN"
| "js_div NaN _ = NaN"
| "js_div _ NaN = NaN"

text \<open>The operator \<open>+\<close>: the sum of the two infinities is NaN.\<close>

fun js_add :: "jsnum \<Rightarrow> jsnum \<Rightarrow> jsnum" where
  "js_add (Num a) (Num b) = Num (a + b)"
| "js_add (Num a) PInf = PInf"
| "js_add (Num a) NInf = NInf"
| "js_add PInf (Num b) = PInf"
| "js_add NInf (Num b) = NInf"
| "js_add PInf PInf = PInf"
| "js_add PInf NInf = NaN"
| "js_add NInf PInf = NaN"
| "js_add NInf NInf = NInf"
| "js_add NaN _ = NaN"
| "js_add _ NaN = NaN"

text \<open>The comparison \<open>a <= b\<close>: false as soon as an operand is NaN.\<close>

fun js_le :: "jsnum \<Rightarrow> jsnum \<Rightarrow> bool" where
  "js_le NaN _ = False"
| "js_le _ NaN = False"
| "js_le (Num a) (Num b) = (a \<le> b)"
| "js_le NInf _ = True"
| "js_le _ PInf = True"
| "js_le PInf _ = False"
| "js_le _ NInf = False"

text \<open>The comparison \<open>a < b\<close>.\<close>

fun js_less :: "jsnum \<Rightarrow> jsnum \<Rightarrow> bool" where
  "js_less NaN _ = False"
| "js_less _ NaN = False"
| "js_less (Num a) (Num b) = (a < b)"
| "js_less PInf _ = False"
| "js_less _ NInf = False"
| "js_less NInf _ = True"
| "js_less _ PInf = True"

section \<open>Data model\<close>

text \<open>\<open>Example2D\<close>: the fields \<open>x\<close>, \<open>y\<close> and \<open>label\<close> of the source.\<close>

record example2D =
  ex_x :: jsnum
  ex_y :: jsnum
  label :: jsnum

text \<open>\<open>Point\<close>: the fields \<open>x\<close> and \<open>y\<close> of the source.\<close>

record point =
  px :: real
  py :: real

section \<open>The random source\<close>

text \<open>
  \<open>Math.random()\<close> reads a process-wide source. The source is made explicit: the stream
  of all numbers it will return, threaded through every function that draws from it.
\<close>

type_synonym rng = "real stream"

definition math_random :: "rng \<Rightarrow> real \<times> rng" where
  "math_random g = (shd g, stl g)"

text \<open>The contract of \<open>Math.random()\<close>: every number lies in \<open>[0, 1)\<close>.\<close>

definition unit_draws :: "rng \<Rightarrow> bool" where
  "unit_draws g = (\<forall>r \<in> sset g. 0 \<le> r \<and> r < 1)"

definition randUniform :: "real \<Rightarrow> real \<Rightarrow> rng \<Rightarrow> real \<times> rng" where
  "randUniform a b g = (case math_random g of (r, g') \<Rightarrow> (r * (b - a) + a, g'))"

definition dist2D :: "point \<Rightarrow> point \<Rightarrow> real" where
  "dist2D a b = (let dx = px a - px b; dy = py a - py b in sqrt (dx * dx + dy * dy))"

section \<open>Loops\<close>

text \<open>
  \<open>for (let i = 0; i < bound; i++) body\<close>, started at \<open>i\<close>. The bound is a JavaScript
  number and need not be an integer (\<open>numSamples / 2\<close>), so the test compares reals.
\<close>

function for_loop :: "real \<Rightarrow> (nat \<Rightarrow> 's \<Rightarrow> 's) \<Rightarrow> nat \<Rightarrow> 's \<Rightarrow> 's" where
  "for_loop bound body i st =
     (if real i < bound then for_loop bound body (Suc i) (body i st) else st)"
  by pat_completeness auto
termination
  by (relation "measure (\<lambda>(bound, body, i, st). nat \<lceil>bound\<rceil> - i)") (auto, linarith)

declare for_loop.simps [simp del]

text \<open>
  The same loop with a body that may fail to return (it calls \<open>normalRandom\<close>, whose
  rejection loop has no bound): \<open>None\<close> stands for a call that never returns.
\<close>

function for_loop_opt ::
  "real \<Rightarrow> (nat \<Rightarrow> 's \<Rightarrow> 's option) \<Rightarrow> nat \<Rightarrow> 's \<Rightarrow> 's option" where
  "for_loop_opt bound body i st =
     (if real i < bound
      then (case body i st of None \<Rightarrow> None | Some st' \<Rightarrow> for_loop_opt bound body (Suc i) st')
      else Some st)"
  by pat_completeness auto
termination
  by (relation "measure (\<lambda>(bound, body, i, st). nat \<lceil>bound\<rceil> - i)") (auto, linarith)

declare for_loop_opt.simps [simp del]

section \<open>The linear scale of d3\<close>

text \<open>
  \<open>d3.scale.linear().domain([d0, d1]).range([r0, r1])\<close>, with \<open>.clamp(true)\<close> when
  the flag is set. d3 (version 3) is an external library; the scale is written as the library
  computes it: the input is mapped to \<open>t = (v - d0) / (d1 - d0)\<close>, clamped to \<open>[0, 1]\<close>
  by \<open>Math.max(0, Math.min(1, t))\<close> when asked to, and interpolated as
  \<open>r0 * (1 - t) + r1 * t\<close>.
\<close>

definition linear_scale :: "real \<times> real \<Rightarrow> real \<times> real \<Rightarrow> bool \<Rightarrow> real \<Rightarrow> real" where
  "linear_scale dm rg clamp v =
     (case dm of (d0, d1) \<Rightarrow> case rg of (r0, r1) \<Rightarrow>
        let t = (v - d0) / (d1 - d0);
            t' = (if clamp then max 0 (min 1 t) else t)
        in r0 * (1 - t') + r1 * t')"

section \<open>normalRandom\<close>

text \<open>
  The \<open>do ... while (s > 1)\<close> loop draws two numbers each round and has no bound on the
  number of rounds; a source that never yields \<open>s \<le> 1\<close> keeps it running forever, which
  is the value \<open>None\<close>. Every call site passes both arguments, so the default values of
  \<open>mean\<close> and \<open>variance\<close> play no role.
\<close>

partial_function (option) normalRandom :: "real \<Rightarrow> real \<Rightarrow> rng \<Rightarrow> (jsnum \<times> rng) option" where
  "normalRandom mean variance g =
     (case math_random g of (r1, g1) \<Rightarrow> case math_random g1 of (r2, g2) \<Rightarrow>
        let v1 = 2 * r1 - 1;
            v2 = 2 * r2 - 1;
            s = v1 * v1 + v2 * v2
        in if s > 1 then normalRandom mean variance g2
           else let result = js_mul (js_sqrt (js_div (js_mul (Num (- 2)) (js_log (Num s))) (Num s)))
                                    (Num v1)
                in Some (js_add (Num mean) (js_mul (js_sqrt (Num variance)) result), g2))"

section \<open>The generators\<close>

text \<open>
  Every generator threads the random source and the array \<open>points\<close> through its loop;
  \<open>points.push(p)\<close> appends at the end. \<open>numSamples\<close> is a natural number and
  \<open>noise\<close> a finite real. A generator returns its array and the source it leaves behind.
  The arithmetic is that of the real numbers: the code computes in doubles, and where an
  operation of the code rounds (\<open>0.53 * 10 - 5\<close> is not \<open>0.3\<close> in doubles) its value differs
  from the value here by the rounding error, which can decide a comparison that is an
  equality here. The draws, the order of the operations and the case distinctions are the
  code's.
\<close>

type_synonym gen_state = "rng \<times> example2D list"

subsection \<open>classifyTwoGaussData\<close>

definition genGauss_body ::
  "real \<Rightarrow> real \<Rightarrow> real \<Rightarrow> real \<Rightarrow> nat \<Rightarrow> gen_state \<Rightarrow> gen_state option" where
  "genGauss_body variance cx cy lab i st =
     (case st of (g0, points) \<Rightarrow>
        case normalRandom cx variance g0 of None \<Rightarrow> None
        | Some (x, g1) \<Rightarrow>
            case normalRandom cy variance g1 of None \<Rightarrow> None
            | Some (y, g2) \<Rightarrow>
                Some (g2, points @ [\<lparr>ex_x = x, ex_y = y, label = Num lab\<rparr>]))"

text \<open>The inner function \<open>genGauss\<close>; the variables it captures are parameters.\<close>

definition genGauss :: "nat \<Rightarrow> real \<Rightarrow> real \<Rightarrow> real \<Rightarrow> real \<Rightarrow> gen_state \<Rightarrow> gen_state option" where
  "genGauss numSamples variance cx cy lab st =
     for_loop_opt (real numSamples / 2) (genGauss_body variance cx cy lab) 0 st"

definition classifyTwoGaussData :: "nat \<Rightarrow> real \<Rightarrow> rng \<Rightarrow> (example2D list \<times> rng) option" where
  "classifyTwoGaussData numSamples noise g =
     (let variance = linear_scale (0, 0.5) (0.5, 4) False noise
      in case genGauss numSamples variance 2 2 1 (g, []) of None \<Rightarrow> None
         | Some st1 \<Rightarrow>
             case genGauss numSamples variance (- 2) (- 2) (- 1) st1 of None \<Rightarrow> None
             | Some (g', points) \<Rightarrow> Some (points, g'))"

subsection \<open>regressPlane\<close>

definition regressPlane_getLabel :: "real \<Rightarrow> real \<Rightarrow> real" where
  "regressPlane_getLabel x y = linear_scale (- 10, 10) (- 1, 1) False (x + y)"

definition regressPlane_body :: "real \<Rightarrow> nat \<Rightarrow> gen_state \<Rightarrow> gen_state" where
  "regressPlane_body noise i st =
     (case st of (g0, points) \<Rightarrow>
        let radius = 6 in
        case randUniform (- radius) radius g0 of (x, g1) \<Rightarrow>
        case randUniform (- radius) radius g1 of (y, g2) \<Rightarrow>
        case randUniform (- radius) radius g2 of (u, g3) \<Rightarrow>
        case randUniform (- radius) radius g3 of (v, g4) \<Rightarrow>
        let noiseX = u * noise;
            noiseY = v * noise;
            lab = regressPlane_getLabel (x + noiseX) (y + noiseY)
        in (g4, points @ [\<lparr>ex_x = Num x, ex_y = Num y, label = Num lab\<rparr>]))"

definition regressPlane :: "nat \<Rightarrow> real \<Rightarrow> rng \<Rightarrow> example2D list \<times> rng" where
  "regressPlane numSamples noise g =
     (case for_loop (real numSamples) (regressPlane_body noise) 0 (g, []) of
        (g', points) \<Rightarrow> (points, g'))"

subsection \<open>regressGaussian\<close>

definition gaussians :: "(real \<times> real \<times> real) list" where
  "gaussians =
     [(- 4, 2.5, 1),
      (0, 2.5, - 1),
      (4, 2.5, 1),
      (- 4, - 2.5, - 1),
      (0, - 2.5, 1),
      (4, - 2.5, - 1)]"

definition regressGaussian_labelScale :: "real \<Rightarrow> real" where
  "regressGaussian_labelScale = linear_scale (0, 2) (1, 0) True"

text \<open>The value \<open>newLabel\<close> that one center gives at the point \<open>(x, y)\<close>.\<close>

definition newLabel :: "real \<Rightarrow> real \<Rightarrow> real \<times> real \<times> real \<Rightarrow> real" where
  "newLabel x y c =
     (case c of (cx, cy, sign) \<Rightarrow>
        sign * regressGaussian_labelScale (dist2D \<lparr>px = x, py = y\<rparr> \<lparr>px = cx, py = cy\<rparr>))"

text \<open>The callback of \<open>gaussians.forEach\<close>, as a function of the variable \<open>label\<close>.\<close>

definition getLabel_step :: "real \<Rightarrow> real \<Rightarrow> real \<Rightarrow> real \<times> real \<times> real \<Rightarrow> real" where
  "getLabel_step x y lab c =
     (let nl = newLabel x y c in if \<bar>nl\<bar> > \<bar>lab\<bar> then nl else lab)"

definition regressGaussian_getLabel :: "real \<Rightarrow> real \<Rightarrow> real" where
  "regressGaussian_getLabel x y = foldl (getLabel_step x y) 0 gaussians"

definition regressGaussian_body :: "real \<Rightarrow> nat \<Rightarrow> gen_state \<Rightarrow> gen_state" where
  "regressGaussian_body noise i st =
     (case st of (g0, points) \<Rightarrow>
        let radius = 6 in
        case randUniform (- radius) radius g0 of (x, g1) \<Rightarrow>
        case randUniform (- radius) radius g1 of (y, g2) \<Rightarrow>
        case randUniform (- radius) radius g2 of (u, g3) \<Rightarrow>
        case randUniform (- radius) radius g3 of (v, g4) \<Rightarrow>
        let noiseX = u * noise;
            noiseY = v * noise;
            lab = regressGaussian_getLabel (x + noiseX) (y + noiseY)
        in (g4, points @ [\<lparr>ex_x = Num x, ex_y = Num y, label = Num lab\<rparr>]))"

definition regressGaussian :: "nat \<Rightarrow> real \<Rightarrow> rng \<Rightarrow> example2D list \<times> rng" where
  "regressGaussian numSamples noise g =
     (case for_loop (real numSamples) (regressGaussian_body noise) 0 (g, []) of
        (g', points) \<Rightarrow> (points, g'))"

subsection \<open>classifySpiralData\<close>

definition genSpiral_body :: "real \<Rightarrow> real \<Rightarrow> real \<Rightarrow> real \<Rightarrow> nat \<Rightarrow> gen_state \<Rightarrow> gen_state" where
  "genSpiral_body n noise deltaT lab i st =
     (case st of (g0, points) \<Rightarrow>
        let r = real i / n * 5;
            t = 1.75 * real i / n * 2 * pi + deltaT in
        case randUniform (- 1) 1 g0 of (u, g1) \<Rightarrow>
        let x = r * sin t + u * noise in
        case randUniform (- 1) 1 g1 of (v, g2) \<Rightarrow>
        let y = r * cos t + v * noise
        in (g2, points @ [\<lparr>ex_x = Num x, ex_y = Num y, label = Num lab\<rparr>]))"

definition genSpiral :: "real \<Rightarrow> real \<Rightarrow> real \<Rightarrow> real \<Rightarrow> gen_state \<Rightarrow> gen_state" where
  "genSpiral n noise deltaT lab st = for_loop n (genSpiral_body n noise deltaT lab) 0 st"

definition classifySpiralData :: "nat \<Rightarrow> real \<Rightarrow> rng \<Rightarrow> example2D list \<times> rng" where
  "classifySpiralData numSamples noise g =
     (let n = real numSamples / 2;
          st1 = genSpiral n noise 0 1 (g, []);
          st2 = genSpiral n noise pi (- 1) st1
      in case st2 of (g', points) \<Rightarrow> (points, g'))"

subsection \<open>classifyCircleData\<close>

definition getCircleLabel :: "real \<Rightarrow> point \<Rightarrow> point \<Rightarrow> real" where
  "getCircleLabel radius p center = (if dist2D p center < radius * 0.5 then 1 else - 1)"

text \<open>The body of both loops; they differ in the interval \<open>[lo, hi)\<close> of the radius.\<close>

definition circle_body :: "real \<Rightarrow> real \<Rightarrow> real \<Rightarrow> real \<Rightarrow> nat \<Rightarrow> gen_state \<Rightarrow> gen_state" where
  "circle_body radius lo hi noise i st =
     (case st of (g0, points) \<Rightarrow>
        case randUniform lo hi g0 of (r, g1) \<Rightarrow>
        case randUniform 0 (2 * pi) g1 of (angle, g2) \<Rightarrow>
        let x = r * sin angle;
            y = r * cos angle in
        case randUniform (- radius) radius g2 of (u, g3) \<Rightarrow>
        case randUniform (- radius) radius g3 of (v, g4) \<Rightarrow>
        let noiseX = u * noise;
            noiseY = v * noise;
            lab = getCircleLabel radius \<lparr>px = x + noiseX, py = y + noiseY\<rparr> \<lparr>px = 0, py = 0\<rparr>
        in (g4, points @ [\<lparr>ex_x = Num x, ex_y = Num y, label = Num lab\<rparr>]))"

definition classifyCircleData :: "nat \<Rightarrow> real \<Rightarrow> rng \<Rightarrow> example2D list \<times> rng" where
  "classifyCircleData numSamples noise g =
     (let radius = 5;
          st1 = for_loop (real numSamples / 2) (circle_body radius 0 (radius * 0.5) noise) 0 (g, []);
          st2 = for_loop (real numSamples / 2) (circle_body radius (radius * 0.7) radius noise) 0 st1
      in case st2 of (g', points) \<Rightarrow> (points, g'))"

subsection \<open>classifyXORData\<close>

definition getXORLabel :: "point \<Rightarrow> real" where
  "getXORLabel p = (if px p * py p \<ge> 0 then 1 else - 1)"

definition classifyXORData_body :: "real \<Rightarrow> nat \<Rightarrow> gen_state \<Rightarrow> gen_state" where
  "classifyXORData_body noise i st =
     (case st of (g0, points) \<Rightarrow>
        case randUniform (- 5) 5 g0 of (x0, g1) \<Rightarrow>
        let padding = 0.3;
            x = x0 + (if x0 > 0 then padding else - padding) in
        case randUniform (- 5) 5 g1 of (y0, g2) \<Rightarrow>
        let y = y0 + (if y0 > 0 then padding else - padding) in
        case randUniform (- 5) 5 g2 of (u, g3) \<Rightarrow>
        case randUniform (- 5) 5 g3 of (v, g4) \<Rightarrow>
        let noiseX = u * noise;
            noiseY = v * noise;
            lab = getXORLabel \<lparr>px = x + noiseX, py = y + noiseY\<rparr>
        in (g4, points @ [\<lparr>ex_x = Num x, ex_y = Num y, label = Num lab\<rparr>]))"

definition classifyXORData :: "nat \<Rightarrow> real \<Rightarrow> rng \<Rightarrow> example2D list \<times> rng" where
  "classifyXORData numSamples noise g =
     (case for_loop (real numSamples) (classifyXORData_body noise) 0 (g, []) of
        (g', points) \<Rightarrow> (points, g'))"

subsection \<open>The dummy presets\<close>

text \<open>The inner function \<open>add\<close> of \<open>classifyCsvDummy1\<close>: one round of its loop, and
  the loop.\<close>

definition add_body :: "real \<Rightarrow> real \<Rightarrow> real \<Rightarrow> real \<Rightarrow> nat \<Rightarrow> gen_state \<Rightarrow> gen_state option" where
  "add_body noise cx cy lab i st =
     (case st of (g0, pts) \<Rightarrow>
        case normalRandom cx (0.4 + noise) g0 of None \<Rightarrow> None
        | Some (x, g1) \<Rightarrow>
            case normalRandom cy (0.4 + noise) g1 of None \<Rightarrow> None
            | Some (y, g2) \<Rightarrow>
                Some (g2, pts @ [\<lparr>ex_x = x, ex_y = y, label = Num lab\<rparr>]))"

definition add :: "real \<Rightarrow> real \<Rightarrow> real \<Rightarrow> real \<Rightarrow> real \<Rightarrow> gen_state \<Rightarrow> gen_state option" where
  "add noise cx cy lab n st = for_loop_opt n (add_body noise cx cy lab) 0 st"

definition classifyCsvDummy1 :: "nat \<Rightarrow> real \<Rightarrow> rng \<Rightarrow> (example2D list \<times> rng) option" where
  "classifyCsvDummy1 numSamples noise g =
     (case add noise 2.5 2.5 1 80 (g, []) of None \<Rightarrow> None
      | Some st1 \<Rightarrow>
          case add noise (- 2.5) (- 2.5) (- 1) 80 st1 of None \<Rightarrow> None
          | Some (g', pts) \<Rightarrow> Some (pts, g'))"

definition classifyCsvDummy2_body :: "real \<Rightarrow> nat \<Rightarrow> gen_state \<Rightarrow> gen_state" where
  "classifyCsvDummy2_body noise i st =
     (case st of (g0, pts) \<Rightarrow>
        case math_random g0 of (c, g1) \<Rightarrow>
        case randUniform (- 1) 1 g1 of (w, g2) \<Rightarrow>
        let r = (if c < 0.5 then 1.0 + 0.2 * w else 3.0 + 0.3 * w) in
        case randUniform 0 (pi * 2) g2 of (t, g3) \<Rightarrow>
        let x = r * cos t;
            y = r * sin t;
            lab = (if r < 2.0 then 1 else - 1) in
        case randUniform (- 1) 1 g3 of (u, g4) \<Rightarrow>
        let x' = x + noise * u in
        case randUniform (- 1) 1 g4 of (v, g5) \<Rightarrow>
        let y' = y + noise * v
        in (g5, pts @ [\<lparr>ex_x = Num x', ex_y = Num y', label = Num lab\<rparr>]))"

definition classifyCsvDummy2 :: "nat \<Rightarrow> real \<Rightarrow> rng \<Rightarrow> example2D list \<times> rng" where
  "classifyCsvDummy2 numSamples noise g =
     (case for_loop 160 (classifyCsvDummy2_body noise) 0 (g, []) of
        (g', pts) \<Rightarrow> (pts, g'))"

definition regressCsvDummy1_body :: "real \<Rightarrow> nat \<Rightarrow> gen_state \<Rightarrow> gen_state" where
  "regressCsvDummy1_body noise i st =
     (case st of (g0, pts) \<Rightarrow>
        let labelScale = linear_scale (- 6, 6) (- 1, 1) False in
        case randUniform (- 5.5) 5.5 g0 of (x, g1) \<Rightarrow>
        case randUniform (- 5.5) 5.5 g1 of (y, g2) \<Rightarrow>
        case randUniform (- 1) 1 g2 of (u, g3) \<Rightarrow>
        let nx = noise * u in
        case randUniform (- 1) 1 g3 of (v, g4) \<Rightarrow>
        let ny = noise * v;
            lab = labelScale ((x + nx) - (y + ny))
        in (g4, pts @ [\<lparr>ex_x = Num x, ex_y = Num y, label = Num lab\<rparr>]))"

definition regressCsvDummy1 :: "nat \<Rightarrow> real \<Rightarrow> rng \<Rightarrow> example2D list \<times> rng" where
  "regressCsvDummy1 numSamples noise g =
     (case for_loop 200 (regressCsvDummy1_body noise) 0 (g, []) of
        (g', pts) \<Rightarrow> (pts, g'))"

definition centers :: "(real \<times> real \<times> real) list" where
  "centers = [(- 2.5, 2.0, 1), (2.5, - 2.0, - 1)]"

definition best_step :: "real \<Rightarrow> real \<Rightarrow> real \<Rightarrow> real \<times> real \<times> real \<Rightarrow> real" where
  "best_step x y best c =
     (case c of (cx, cy, s) \<Rightarrow>
        let v = s * linear_scale (0, 4) (1, 0) True (dist2D \<lparr>px = x, py = y\<rparr> \<lparr>px = cx, py = cy\<rparr>)
        in if \<bar>v\<bar> > \<bar>best\<bar> then v else best)"

definition regressCsvDummy2_body :: "real \<Rightarrow> nat \<Rightarrow> gen_state \<Rightarrow> gen_state" where
  "regressCsvDummy2_body noise i st =
     (case st of (g0, pts) \<Rightarrow>
        case randUniform (- 6) 6 g0 of (x0, g1) \<Rightarrow>
        case randUniform (- 6) 6 g1 of (y0, g2) \<Rightarrow>
        case randUniform (- 1) 1 g2 of (u, g3) \<Rightarrow>
        let x = x0 + noise * u in
        case randUniform (- 1) 1 g3 of (v, g4) \<Rightarrow>
        let y = y0 + noise * v;
            best = foldl (best_step x y) 0 centers
        in (g4, pts @ [\<lparr>ex_x = Num x, ex_y = Num y, label = Num best\<rparr>]))"

definition regressCsvDummy2 :: "nat \<Rightarrow> real \<Rightarrow> rng \<Rightarrow> example2D list \<times> rng" where
  "regressCsvDummy2 numSamples noise g =
     (case for_loop 200 (regressCsvDummy2_body noise) 0 (g, []) of
        (g', pts) \<Rightarrow> (pts, g'))"

section \<open>shuffle\<close>

text \<open>
  A JavaScript array of type \<open>any[]\<close>: its indexed elements, where \<open>None\<close> is
  \<open>undefined\<close>, and the properties whose name is a negative integer, which an assignment
  \<open>array[i] = v\<close> with \<open>i < 0\<close> creates. A read outside the array gives \<open>undefined\<close>, a write
  at or beyond the length extends the array.
\<close>

record 'a js_array =
  cells :: "'a option list"
  props :: "int \<Rightarrow> 'a option"

definition js_get :: "'a js_array \<Rightarrow> int \<Rightarrow> 'a option" where
  "js_get a i =
     (if 0 \<le> i \<and> i < int (length (cells a)) then cells a ! nat i
      else if i < 0 then props a i
      else None)"

definition js_set :: "'a js_array \<Rightarrow> int \<Rightarrow> 'a option \<Rightarrow> 'a js_array" where
  "js_set a i v =
     (if 0 \<le> i \<and> i < int (length (cells a)) then a\<lparr>cells := (cells a)[nat i := v]\<rparr>
      else if i < 0 then a\<lparr>props := (props a)(i := v)\<rparr>
      else a\<lparr>cells := cells a @ replicate (nat i - length (cells a)) None @ [v]\<rparr>)"

text \<open>The \<open>while (counter > 0)\<close> loop of \<open>shuffle\<close>.\<close>

function shuffle_loop :: "nat \<Rightarrow> 'a js_array \<Rightarrow> rng \<Rightarrow> 'a js_array \<times> rng" where
  "shuffle_loop counter array g =
     (if counter > 0 then
        (case math_random g of (r, g') \<Rightarrow>
           let index = \<lfloor>r * real counter\<rfloor>;
               counter' = counter - 1;
               temp = js_get array (int counter');
               array1 = js_set array (int counter') (js_get array index);
               array2 = js_set array1 index temp
           in shuffle_loop counter' array2 g')
      else (array, g))"
  by pat_completeness auto
termination
  by (relation "measure (\<lambda>(counter, array, g). counter)") auto

declare shuffle_loop.simps [simp del]

text \<open>\<open>shuffle\<close> works in place: the model returns the array and the source it leaves.\<close>

definition shuffle :: "'a js_array \<Rightarrow> rng \<Rightarrow> 'a js_array \<times> rng" where
  "shuffle array g = shuffle_loop (length (cells array)) array g"

section \<open>generatorFromExamples\<close>

text \<open>
  Arrays and points are objects, held by reference: what a mutation through one reference
  changes for the holders of another depends on which objects they share. The store maps
  the reference of an array to the references of its elements, and the reference of a
  point to its fields; \<open>next_array\<close> is the first reference not yet given to an array.
\<close>

record store =
  arrays :: "nat \<Rightarrow> nat list"
  objects :: "nat \<Rightarrow> example2D"
  next_array :: nat

text \<open>\<open>examples.slice()\<close>: a new array with the same element references.\<close>

definition slice :: "nat \<Rightarrow> store \<Rightarrow> nat \<times> store" where
  "slice a h =
     (let c = next_array h
      in (c, h\<lparr>arrays := (arrays h)(c := arrays h a), next_array := Suc c\<rparr>))"

text \<open>The generator is the closure \<open>(numSamples, noise) => examples.slice()\<close>.\<close>

definition generatorFromExamples :: "nat \<Rightarrow> nat \<Rightarrow> real \<Rightarrow> store \<Rightarrow> nat \<times> store" where
  "generatorFromExamples examples = (\<lambda>numSamples noise. slice examples)"

text \<open>
  What a caller can do with a returned array: change the array itself
  (\<open>a[i] = p\<close>, \<open>a.push(p)\<close>, \<open>a.length = n\<close>, \<open>shuffle(a)\<close>: its elements become some list
  \<open>els\<close>), or assign to the fields of a point it holds (\<open>a[i].label = v\<close>: the point
  becomes \<open>p\<close>). \<open>contents\<close> is what a reader of the array sees.
\<close>

definition write_array :: "nat \<Rightarrow> nat list \<Rightarrow> store \<Rightarrow> store" where
  "write_array a els h = h\<lparr>arrays := (arrays h)(a := els)\<rparr>"

definition write_object :: "nat \<Rightarrow> example2D \<Rightarrow> store \<Rightarrow> store" where
  "write_object r p h = h\<lparr>objects := (objects h)(r := p)\<rparr>"

definition contents :: "nat \<Rightarrow> store \<Rightarrow> example2D list" where
  "contents a h = map (objects h) (arrays h a)"

text \<open>A store with one array, of reference \<open>0\<close>, holding one point, of reference \<open>0\<close>.\<close>

definition store0 :: store where
  "store0 = \<lparr>arrays = (\<lambda>a. [])(0 := [0]),
             objects = (\<lambda>r. \<lparr>ex_x = Num 1, ex_y = Num 2, label = Num 1\<rparr>),
             next_array = 1\<rparr>"

section \<open>parseFloat\<close>

text \<open>
  \<open>parseFloat\<close> is a function of the language. It skips leading white space, reads the
  longest prefix that is a decimal literal (an optional sign, then \<open>Infinity\<close> or digits
  with an optional fraction and an optional exponent) and ignores the rest; without such
  a prefix the result is NaN. The value is the exact decimal number: rounding to a double
  and overflow are not modelled. Strings are sequences of ASCII characters.
\<close>

definition is_space :: "char \<Rightarrow> bool" where
  "is_space c = (c \<in> set [CHR 0x09, CHR 0x0A, CHR 0x0B, CHR 0x0C, CHR 0x0D, CHR 0x20])"

definition is_digit :: "char \<Rightarrow> bool" where
  "is_digit c = (48 \<le> (of_char c :: nat) \<and> (of_char c :: nat) \<le> 57)"

definition digits_value :: "string \<Rightarrow> nat" where
  "digits_value ds = foldl (\<lambda>a c. 10 * a + (of_char c - 48)) 0 ds"

text \<open>The sign in front of a literal or of an exponent: whether it is negative, and the rest.\<close>

definition read_sign :: "string \<Rightarrow> bool \<times> string" where
  "read_sign t =
     (case t of
        [] \<Rightarrow> (False, t)
      | c # cs \<Rightarrow>
          if c = CHR ''-'' then (True, cs) else if c = CHR ''+'' then (False, cs) else (False, t))"

text \<open>The exponent part: \<open>e\<close> or \<open>E\<close>, an optional sign and at least one digit; else none.\<close>

definition read_exponent :: "string \<Rightarrow> int" where
  "read_exponent t =
     (case t of
        [] \<Rightarrow> 0
      | c # cs \<Rightarrow>
          if c = CHR ''e'' \<or> c = CHR ''E'' then
            (case read_sign cs of (neg, cs') \<Rightarrow>
               let ds = takeWhile is_digit cs' in
               if ds = [] then 0
               else if neg then - int (digits_value ds) else int (digits_value ds))
          else 0)"

definition parseFloat :: "string \<Rightarrow> jsnum" where
  "parseFloat s =
     (case read_sign (dropWhile is_space s) of (neg, t1) \<Rightarrow>
        if take 8 t1 = ''Infinity'' then (if neg then NInf else PInf)
        else
          let ip = takeWhile is_digit t1;
              t2 = dropWhile is_digit t1;
              dot = (t2 \<noteq> [] \<and> hd t2 = CHR ''.'');
              fp = (if dot then takeWhile is_digit (tl t2) else []);
              t3 = (if dot then dropWhile is_digit (tl t2) else t2)
          in if ip = [] \<and> fp = [] then NaN
             else
               let ex = read_exponent t3;
                   m = real (digits_value ip) + real (digits_value fp) / 10 ^ length fp;
                   v = (if 0 \<le> ex then m * 10 ^ nat ex else m / 10 ^ nat (- ex))
               in Num (if neg then - v else v))"

section \<open>d3.csv.parse\<close>

text \<open>
  \<open>d3.csv.parse\<close> belongs to the library d3 (version 3), not to the repository. It is
  written here as the library computes it. \<open>parseRows\<close> reads the text token by token: a
  field ends at a comma, at a line break (\<open>LF\<close>, \<open>CR\<close> or \<open>CR LF\<close>) or at the end of the
  text; a field that starts with a double quote runs to the closing quote, a doubled
  quote inside standing for one quote, and the character after the closing quote is
  skipped as the delimiter. A token is the field, whether a line break ended it, and the
  rest of the text.
\<close>

fun scan_unquoted :: "string \<Rightarrow> string \<times> bool \<times> string" where
  "scan_unquoted [] = ([], False, [])"
| "scan_unquoted (c # cs) =
     (if c = CHR 0x0A then ([], True, cs)
      else if c = CHR 0x0D then
        ([], True, (case cs of [] \<Rightarrow> cs | d # ds \<Rightarrow> if d = CHR 0x0A then ds else cs))
      else if c = CHR '','' then ([], False, cs)
      else (case scan_unquoted cs of (v, eol, rest) \<Rightarrow> (c # v, eol, rest)))"

text \<open>The text after an opening quote: the content, and the text after the closing quote
  when there is one.\<close>

fun scan_quoted :: "string \<Rightarrow> string \<times> string option" where
  "scan_quoted [] = ([], None)"
| "scan_quoted [c] = (if c = CHR 0x22 then ([], Some []) else ([c], None))"
| "scan_quoted (c # d # ds) =
     (if c = CHR 0x22 then
        (if d = CHR 0x22 then (case scan_quoted ds of (v, r) \<Rightarrow> (CHR 0x22 # v, r))
         else ([], Some (d # ds)))
      else (case scan_quoted (d # ds) of (v, r) \<Rightarrow> (c # v, r)))"

definition token_quoted :: "string \<Rightarrow> string \<times> bool \<times> string" where
  "token_quoted cs =
     (case scan_quoted cs of
        (v, None) \<Rightarrow> (v, False, [])
      | (v, Some after) \<Rightarrow>
          (case after of
             [] \<Rightarrow> (v, False, [])
           | c # r \<Rightarrow>
               if c = CHR 0x0D then
                 (v, True, (case r of [] \<Rightarrow> r | d # r' \<Rightarrow> if d = CHR 0x0A then r' else r))
               else if c = CHR 0x0A then (v, True, r)
               else (v, False, r)))"

definition token :: "string \<Rightarrow> string \<times> bool \<times> string" where
  "token text =
     (case text of
        [] \<Rightarrow> ([], False, [])
      | c # cs \<Rightarrow> if c = CHR 0x22 then token_quoted cs else scan_unquoted text)"

text \<open>The inner loop of \<open>parseRows\<close>: the fields of one row, and the rest of the text.\<close>

function parse_row :: "string \<Rightarrow> string list \<times> string" where
  "parse_row text =
     (if text = [] then ([], [])
      else (case token text of (v, eol, rest) \<Rightarrow>
              if eol then ([v], rest)
              else (case parse_row rest of (vs, rest') \<Rightarrow> (v # vs, rest'))))"
  by pat_completeness auto

text \<open>Every token consumes at least one character, so both loops end.\<close>

lemma scan_unquoted_rest: "length (snd (snd (scan_unquoted cs))) \<le> length cs"
  by (induction cs) (simp_all add: split_beta split: list.split)

lemma scan_unquoted_shorter: "cs \<noteq> [] \<Longrightarrow> length (snd (snd (scan_unquoted cs))) < length cs"
proof (cases cs)
  case Nil
  assume "cs \<noteq> []"
  then show ?thesis using Nil by simp
next
  case (Cons c ds)
  show ?thesis using scan_unquoted_rest [of ds] Cons
    by (simp add: split_beta le_imp_less_Suc split: list.split)
qed

lemma scan_quoted_rest:
  "scan_quoted cs = (v, Some r) \<Longrightarrow> length r \<le> length cs"
proof (induction cs arbitrary: v rule: scan_quoted.induct)
  case 1
  then show ?case by simp
next
  case (2 c)
  then show ?case by (simp split: if_splits)
next
  case (3 c d ds)
  show ?case
  proof (cases "c = CHR 0x22")
    case q: True
    show ?thesis
    proof (cases "d = CHR 0x22")
      case True
      then obtain v' where "scan_quoted ds = (v', Some r)"
        using "3.prems" q by (cases "scan_quoted ds") simp
      then have "length r \<le> length ds" using "3.IH"(1) [OF q True] by simp
      then show ?thesis by simp
    next
      case False
      then have "r = d # ds" using "3.prems" q by simp
      then show ?thesis by simp
    qed
  next
    case False
    then obtain v' where "scan_quoted (d # ds) = (v', Some r)"
      using "3.prems" by (cases "scan_quoted (d # ds)") simp
    then have "length r \<le> length (d # ds)" using "3.IH"(2) [OF False] by simp
    then show ?thesis by simp
  qed
qed

lemma token_quoted_rest: "length (snd (snd (token_quoted cs))) \<le> length cs"
proof (cases "scan_quoted cs")
  case (Pair v r)
  show ?thesis
  proof (cases r)
    case None
    then show ?thesis using Pair by (simp add: token_quoted_def)
  next
    case (Some after)
    then have le: "length after \<le> length cs" using Pair scan_quoted_rest by blast
    show ?thesis
    proof (cases after)
      case Nil
      then show ?thesis using Pair Some by (simp add: token_quoted_def)
    next
      case (Cons c r')
      have "length (case r' of [] \<Rightarrow> r' | d # r'' \<Rightarrow> if d = CHR 0x0A then r'' else r') \<le> length r'"
        by (cases r') simp_all
      then show ?thesis using Pair Some Cons le by (simp add: token_quoted_def)
    qed
  qed
qed

lemma token_shorter: "w \<noteq> [] \<Longrightarrow> length (snd (snd (token w))) < length w"
proof (cases w)
  case Nil
  assume "w \<noteq> []"
  then show ?thesis using Nil by simp
next
  case (Cons c cs)
  show ?thesis
  proof (cases "c = CHR 0x22")
    case True
    then show ?thesis using token_quoted_rest [of cs] Cons by (simp add: token_def)
  next
    case False
    then have "token w = scan_unquoted w" using Cons by (simp add: token_def)
    then show ?thesis using scan_unquoted_shorter [of w] Cons by simp
  qed
qed

termination parse_row
  apply (relation "measure length")
   apply simp
  apply simp
  apply (metis token_shorter snd_conv)
  done

declare parse_row.simps [simp del]

lemma parse_row_Nil: "parse_row [] = ([], [])"
  by (simp add: parse_row.simps)

lemma parse_row_eol:
  "w \<noteq> [] \<Longrightarrow> token w = (v, True, r) \<Longrightarrow> parse_row w = ([v], r)"
  by (subst parse_row.simps) simp

lemma parse_row_more:
  "w \<noteq> [] \<Longrightarrow> token w = (v, False, r) \<Longrightarrow>
   parse_row w = (v # fst (parse_row r), snd (parse_row r))"
  by (subst parse_row.simps) (simp add: split_beta)

lemma parse_row_rest: "length (snd (parse_row w)) \<le> length w"
proof (induction w rule: length_induct)
  case (1 w)
  show ?case
  proof (cases "w = []")
    case True
    then show ?thesis by (simp add: parse_row_Nil)
  next
    case False
    obtain v eol r where tk: "token w = (v, eol, r)" by (cases "token w") auto
    have lr: "length r < length w" using token_shorter [OF False] tk by simp
    show ?thesis
    proof (cases eol)
      case True
      then show ?thesis using parse_row_eol [OF False] tk lr by simp
    next
      case no: False
      have "length (snd (parse_row r)) \<le> length r" using 1 lr by blast
      then show ?thesis using parse_row_more [OF False] tk no lr by simp
    qed
  qed
qed

lemma parse_row_shorter: "w \<noteq> [] \<Longrightarrow> length (snd (parse_row w)) < length w"
proof -
  assume ne: "w \<noteq> []"
  obtain v eol r where tk: "token w = (v, eol, r)" by (cases "token w") auto
  have lr: "length r < length w" using token_shorter [OF ne] tk by simp
  show ?thesis
  proof (cases eol)
    case True
    then show ?thesis using parse_row_eol [OF ne] tk lr by simp
  next
    case False
    then show ?thesis using parse_row_more [OF ne] tk parse_row_rest [of r] lr by simp
  qed
qed

text \<open>The outer loop of \<open>parseRows\<close>: the rows of the text.\<close>

function parseRows :: "string \<Rightarrow> string list list" where
  "parseRows text =
     (if text = [] then []
      else (case parse_row text of (row, rest) \<Rightarrow> row # parseRows rest))"
  by pat_completeness auto
termination
  apply (relation "measure length")
   apply simp
  apply simp
  apply (metis parse_row_shorter snd_conv)
  done

declare parseRows.simps [simp del]

text \<open>
  \<open>parse\<close> turns every row after the first into an object whose properties are named by
  the first row, the header: the property of name \<open>header[i]\<close> is \<open>row[i]\<close>, which is
  \<open>undefined\<close> when the row is shorter, and of two columns of one name the last one wins.
  A property that is absent or \<open>undefined\<close> is \<open>None\<close>: the code tests \<open>!= null\<close> only.
\<close>

type_synonym row = "string \<Rightarrow> string option"

definition make_row :: "string list \<Rightarrow> string list \<Rightarrow> row" where
  "make_row header d =
     (\<lambda>name.
        case map_of (rev (zip header (map Some d @ replicate (length header - length d) None))) name of
          None \<Rightarrow> None
        | Some cell \<Rightarrow> cell)"

text \<open>
  When it reads the header, \<open>parse\<close> compiles the constructor of the rows with
  \<open>new Function\<close>, from the text of an object literal that lists the names of the header.
  An object literal with two properties of name \<open>__proto__\<close> is a syntax error of the
  language: on a header with two such columns \<open>new Function\<close> throws, and so does
  \<open>d3.csv.parse\<close>, whether rows follow or not. \<open>Inl\<close> is the exception thrown, \<open>Inr\<close> the
  rows returned.
\<close>

definition d3_csv_parse :: "string \<Rightarrow> string + row list" where
  "d3_csv_parse text =
     (case parseRows text of
        [] \<Rightarrow> Inr []
      | header # rows \<Rightarrow>
          if 2 \<le> count_list header ''__proto__''
          then Inl ''SyntaxError: Duplicate __proto__ fields are not allowed in object literals''
          else Inr (map (make_row header) rows))"

section \<open>parseCsvTextToExamples\<close>

text \<open>
  The callback of \<open>rows.forEach\<close>: the point a row gives, or \<open>None\<close> when the callback
  returns without pushing one.
\<close>

definition row_example :: "bool \<Rightarrow> row \<Rightarrow> example2D option" where
  "row_example isRegression row =
     (let vx = (case row ''x'' of Some s \<Rightarrow> parseFloat s | None \<Rightarrow> NaN);
          vy = (case row ''y'' of Some s \<Rightarrow> parseFloat s | None \<Rightarrow> NaN);
          vraw = (case row ''values'' of Some s \<Rightarrow> Some s | None \<Rightarrow> row ''value'');
          vv = (case vraw of Some s \<Rightarrow> parseFloat s | None \<Rightarrow> NaN)
      in if isNaN vx \<or> isNaN vy \<or> isNaN vv then None
         else
           let lab = (if isRegression then vv else (if js_le vv (Num 0) then Num (- 1) else Num 1))
           in Some \<lparr>ex_x = vx, ex_y = vy, label = lab\<rparr>)"

text \<open>
  The block of the \<open>try\<close>: it ends with the array \<open>out\<close> (\<open>Inr\<close>), or with the exception
  that \<open>d3.csv.parse\<close> throws (\<open>Inl\<close>).
\<close>

definition try_block :: "string \<Rightarrow> bool \<Rightarrow> string + example2D list" where
  "try_block csvText isRegression =
     (case d3_csv_parse csvText of
        Inl e \<Rightarrow> Inl e
      | Inr rows \<Rightarrow>
          Inr (foldl (\<lambda>out row. case row_example isRegression row of
                                      None \<Rightarrow> out
                                    | Some p \<Rightarrow> out @ [p]) [] rows))"

text \<open>
  The function: \<open>try { ... } catch (e) { console.warn("Failed to parse CSV text", e);
  return []; }\<close>. Its result is \<open>Inl\<close> for an exception that reaches the caller, and \<open>Inr\<close>
  for a return, with the array returned and what has been written to the console.
\<close>

definition parseCsvTextToExamples ::
  "string \<Rightarrow> bool \<Rightarrow> string + (example2D list \<times> (string \<times> string) list)" where
  "parseCsvTextToExamples csvText isRegression =
     (case try_block csvText isRegression of
        Inr out \<Rightarrow> Inr (out, [])
      | Inl e \<Rightarrow> Inr ([], [(''Failed to parse CSV text'', e)]))"

section \<open>Auxiliary notions\<close>

text \<open>
  The first two numbers of the source pass the exit test of the loop of \<open>normalRandom\<close>:
  their squared sum \<open>s\<close> is not greater than one.
\<close>

definition accepted :: "rng \<Rightarrow> bool" where
  "accepted g =
     (let v1 = 2 * shd g - 1; v2 = 2 * shd (stl g) - 1 in \<not> v1 * v1 + v2 * v2 > 1)"

text \<open>
  From every position of the source, a pair that passes the test comes after finitely many
  rejected pairs. On such a source every call of \<open>normalRandom\<close> returns.
\<close>

definition accepting :: "rng \<Rightarrow> bool" where
  "accepting g = (\<forall>k. \<exists>j. accepted (sdrop (k + 2 * j) g))"

text \<open>The label of a point is exactly \<open>1\<close> or \<open>-1\<close>.\<close>

definition pm_one :: "example2D \<Rightarrow> bool" where
  "pm_one p = (label p = Num 1 \<or> label p = Num (- 1))"

text \<open>
  The bump value of a center as the specification words it: the sign of the center times
  the distance to the center scaled linearly from the domain \<open>[0, 2]\<close> to the range
  \<open>[1, 0]\<close> and clamped. It is compared with \<open>newLabel\<close>, which is the code.
\<close>

definition bump_value :: "real \<Rightarrow> real \<Rightarrow> real \<times> real \<times> real \<Rightarrow> real" where
  "bump_value x y c =
     (case c of (cx, cy, sign) \<Rightarrow>
        sign * (1 - max 0 (min 1 (sqrt ((x - cx)\<^sup>2 + (y - cy)\<^sup>2) / 2))))"

text \<open>
  The rule of the CSV importer as the specification words it. A field is usable when it is
  present and coerces to a number; the value field is the column \<open>values\<close>, and the column
  \<open>value\<close> when there is no column \<open>values\<close>; a row gives a point when its three fields are
  usable, with the coerced value as label for a regression and otherwise \<open>-1\<close> when the value
  is at most zero and \<open>1\<close> when not. It is compared with \<open>row_example\<close>, which is the code.
\<close>

definition coerced :: "string option \<Rightarrow> jsnum option" where
  "coerced field =
     (case field of
        None \<Rightarrow> None
      | Some s \<Rightarrow> if isNaN (parseFloat s) then None else Some (parseFloat s))"

definition value_field :: "row \<Rightarrow> string option" where
  "value_field row = (case row ''values'' of Some s \<Rightarrow> Some s | None \<Rightarrow> row ''value'')"

definition spec_row :: "bool \<Rightarrow> row \<Rightarrow> example2D option" where
  "spec_row isRegression row =
     (case coerced (row ''x'') of None \<Rightarrow> None | Some vx \<Rightarrow>
      case coerced (row ''y'') of None \<Rightarrow> None | Some vy \<Rightarrow>
      case coerced (value_field row) of None \<Rightarrow> None | Some vv \<Rightarrow>
        Some \<lparr>ex_x = vx, ex_y = vy,
              label = (if isRegression then vv
                       else if js_le vv (Num 0) then Num (- 1) else Num 1)\<rparr>)"

text \<open>The text of the example of the specification:
  \<open>x,y,values\<close>, \<open>1,2,0.5\<close>, \<open>3,4,-0.2\<close>, \<open>bad,4,1\<close>, each line ended by a line feed.\<close>

definition example_text :: string where
  "example_text =
     ''x,y,values'' @ [CHR 0x0A] @ ''1,2,0.5'' @ [CHR 0x0A] @ ''3,4,-0.2'' @ [CHR 0x0A] @
     ''bad,4,1'' @ [CHR 0x0A]"

text \<open>A text whose header has two columns of name \<open>__proto__\<close>, and one row.\<close>

definition proto_text :: string where
  "proto_text = ''__proto__,__proto__'' @ [CHR 0x0A] @ ''1,2'' @ [CHR 0x0A]"

section \<open>Loops: general facts\<close>

lemma for_loop_stop: "\<not> real i < bound \<Longrightarrow> for_loop bound body i st = st"
  by (simp add: for_loop.simps)

lemma for_loop_step: "real i < bound \<Longrightarrow> for_loop bound body i st = for_loop bound body (Suc i) (body i st)"
  by (subst for_loop.simps) simp

lemma less_bound_iff: "real i < bound \<longleftrightarrow> i < nat \<lceil>bound\<rceil>"
  by linarith

lemma for_loop_invariant:
  "I st \<Longrightarrow> (\<And>j s. I s \<Longrightarrow> I (body j s)) \<Longrightarrow> I (for_loop bound body i st)"
proof (induction bound body i st rule: for_loop.induct)
  case (1 bound body i st)
  show ?case
  proof (cases "real i < bound")
    case True
    have "I (body i st)" using 1 by blast
    then have "I (for_loop bound body (Suc i) (body i st))"
      using 1 True by blast
    then show ?thesis using True by (simp add: for_loop_step)
  next
    case False
    then show ?thesis using 1 by (simp add: for_loop_stop)
  qed
qed

lemma for_loop_gen:
  "(\<And>j g pts. body j (g, pts) = (sdrop k g, pts @ [mk j g])) \<Longrightarrow>
   for_loop bound body i st =
           (sdrop (k * (nat \<lceil>bound\<rceil> - i)) (fst st),
            snd st @ map (\<lambda>j. mk j (sdrop (k * (j - i)) (fst st))) [i..<nat \<lceil>bound\<rceil>])"
proof (induction bound body i st rule: for_loop.induct)
  case (1 bound body i st)
  obtain g pts where st: "st = (g, pts)" by (cases st)
  note body = "1.prems"
  show ?case
  proof (cases "real i < bound")
    case True
    then have lt: "i < nat \<lceil>bound\<rceil>" using less_bound_iff [of i bound] by simp
    have a: "k + k * (nat \<lceil>bound\<rceil> - Suc i) = k * (nat \<lceil>bound\<rceil> - i)"
      using lt by (metis Suc_diff_Suc mult_Suc_right)
    have b: "map (\<lambda>j. mk j (sdrop (k + k * (j - Suc i)) g)) [Suc i..<nat \<lceil>bound\<rceil>]
           = map (\<lambda>j. mk j (sdrop (k * (j - i)) g)) [Suc i..<nat \<lceil>bound\<rceil>]"
    proof (rule map_cong [OF refl])
      fix j assume "j \<in> set [Suc i..<nat \<lceil>bound\<rceil>]"
      then have "Suc i \<le> j" by simp
      then have "k + k * (j - Suc i) = k * (j - i)"
        by (metis Suc_diff_le diff_Suc_Suc mult_Suc_right)
      then show "mk j (sdrop (k + k * (j - Suc i)) g) = mk j (sdrop (k * (j - i)) g)"
        by simp
    qed
    have ih: "for_loop bound body (Suc i) (body i st) =
      (sdrop (k * (nat \<lceil>bound\<rceil> - Suc i)) (fst (body i st)),
       snd (body i st) @ map (\<lambda>j. mk j (sdrop (k * (j - Suc i)) (fst (body i st)))) [Suc i..<nat \<lceil>bound\<rceil>])"
      using "1.IH" [OF True body] .
    show ?thesis
      using True lt ih
      by (simp add: for_loop_step st body a b upt_conv_Cons)
  next
    case False
    then have "nat \<lceil>bound\<rceil> \<le> i" using less_bound_iff [of i bound] by simp
    then show ?thesis using False by (simp add: for_loop_stop)
  qed
qed

lemma ceil_half: "nat \<lceil>real n / 2\<rceil> = (n + 1) div 2"
  by linarith

lemma ceil_real: "nat \<lceil>real n\<rceil> = n"
  by simp

lemma for_loop_gen_length:
  assumes "\<And>j g pts. body j (g, pts) = (sdrop k g, pts @ [mk j g])"
  shows "length (snd (for_loop bound body 0 st)) = length (snd st) + nat \<lceil>bound\<rceil>"
  by (simp add: for_loop_gen [where mk = mk and k = k, OF assms])

lemma for_loop_gen_all:
  assumes "\<And>j g pts. body j (g, pts) = (sdrop k g, pts @ [mk j g])"
    and "\<And>j g. P (mk j g)" and "\<forall>p \<in> set (snd st). P p"
  shows "\<forall>p \<in> set (snd (for_loop bound body i st)). P p"
  using assms(2,3) by (auto simp add: for_loop_gen [where mk = mk and k = k, OF assms(1)])

lemma for_loop_opt_stop: "\<not> real i < bound \<Longrightarrow> for_loop_opt bound body i st = Some st"
  by (simp add: for_loop_opt.simps)

lemma for_loop_opt_step: "real i < bound \<Longrightarrow> for_loop_opt bound body i st =
   (case body i st of None \<Rightarrow> None | Some st' \<Rightarrow> for_loop_opt bound body (Suc i) st')"
  by (subst for_loop_opt.simps) simp

lemma for_loop_opt_returns:
  "I st \<Longrightarrow> (\<And>j s. I s \<Longrightarrow> \<exists>s'. body j s = Some s' \<and> I s') \<Longrightarrow>
   \<exists>st'. for_loop_opt bound body i st = Some st' \<and> I st'"
proof (induction bound body i st rule: for_loop_opt.induct)
  case (1 bound body i st)
  show ?case
  proof (cases "real i < bound")
    case True
    obtain s' where s': "body i st = Some s'" "I s'" using 1 by blast
    have "\<exists>st'. for_loop_opt bound body (Suc i) s' = Some st' \<and> I st'"
      using "1.IH" [OF True s'(1) s'(2)] "1.prems"(2) by blast
    then show ?thesis using True s' by (simp add: for_loop_opt_step)
  next
    case False
    then show ?thesis using 1 by (simp add: for_loop_opt_stop)
  qed
qed

lemma for_loop_opt_invariant:
  "for_loop_opt bound body i st = Some st' \<Longrightarrow> I st \<Longrightarrow>
   (\<And>j s s'. I s \<Longrightarrow> body j s = Some s' \<Longrightarrow> I s') \<Longrightarrow> I st'"
proof (induction bound body i st rule: for_loop_opt.induct)
  case (1 bound body i st)
  show ?case
  proof (cases "real i < bound")
    case True
    then obtain s' where s': "body i st = Some s'" "for_loop_opt bound body (Suc i) s' = Some st'"
      using "1.prems"(1) by (auto simp: for_loop_opt_step split: option.splits)
    have "I s'" using "1.prems" s' by blast
    then show ?thesis using "1.IH" [OF True s'(1) s'(2)] "1.prems"(3) by blast
  next
    case False
    then show ?thesis using 1 by (simp add: for_loop_opt_stop)
  qed
qed

lemma for_loop_opt_length:
  "for_loop_opt bound body i st = Some st' \<Longrightarrow>
   (\<And>j s s'. body j s = Some s' \<Longrightarrow> length (snd s') = Suc (length (snd s))) \<Longrightarrow>
   length (snd st') = length (snd st) + (nat \<lceil>bound\<rceil> - i)"
proof (induction bound body i st rule: for_loop_opt.induct)
  case (1 bound body i st)
  show ?case
  proof (cases "real i < bound")
    case True
    then obtain s' where s': "body i st = Some s'" "for_loop_opt bound body (Suc i) s' = Some st'"
      using "1.prems"(1) by (auto simp: for_loop_opt_step split: option.splits)
    have lt: "i < nat \<lceil>bound\<rceil>" using True less_bound_iff [of i bound] by simp
    have "length (snd s') = Suc (length (snd st))" using "1.prems"(2) s'(1) by blast
    moreover have "length (snd st') = length (snd s') + (nat \<lceil>bound\<rceil> - Suc i)"
      using "1.IH" [OF True s'(1) s'(2)] "1.prems"(2) by blast
    ultimately show ?thesis using lt by simp
  next
    case False
    then have "nat \<lceil>bound\<rceil> \<le> i" using less_bound_iff [of i bound] by simp
    then show ?thesis using False 1 by (simp add: for_loop_opt_stop)
  qed
qed

section \<open>The generators: shape of one round, number of points\<close>

lemma regressPlane_body_eq:
  "regressPlane_body noise j (g, pts) =
     (sdrop 4 g, pts @ [last (snd (regressPlane_body noise j (g, [])))])"
  by (simp add: regressPlane_body_def randUniform_def math_random_def Let_def eval_nat_numeral)

lemma regressGaussian_body_eq:
  "regressGaussian_body noise j (g, pts) =
     (sdrop 4 g, pts @ [last (snd (regressGaussian_body noise j (g, [])))])"
  by (simp add: regressGaussian_body_def randUniform_def math_random_def Let_def eval_nat_numeral)

lemma genSpiral_body_eq:
  "genSpiral_body n noise deltaT lab j (g, pts) =
     (sdrop 2 g, pts @ [last (snd (genSpiral_body n noise deltaT lab j (g, [])))])"
  by (simp add: genSpiral_body_def randUniform_def math_random_def Let_def eval_nat_numeral)

lemma circle_body_eq:
  "circle_body radius lo hi noise j (g, pts) =
     (sdrop 4 g, pts @ [last (snd (circle_body radius lo hi noise j (g, [])))])"
  by (simp add: circle_body_def randUniform_def math_random_def Let_def eval_nat_numeral)

lemma classifyXORData_body_eq:
  "classifyXORData_body noise j (g, pts) =
     (sdrop 4 g, pts @ [last (snd (classifyXORData_body noise j (g, [])))])"
  by (simp add: classifyXORData_body_def randUniform_def math_random_def Let_def eval_nat_numeral)

lemma classifyCsvDummy2_body_eq:
  "classifyCsvDummy2_body noise j (g, pts) =
     (sdrop 5 g, pts @ [last (snd (classifyCsvDummy2_body noise j (g, [])))])"
  by (simp add: classifyCsvDummy2_body_def randUniform_def math_random_def Let_def eval_nat_numeral)

lemma regressCsvDummy1_body_eq:
  "regressCsvDummy1_body noise j (g, pts) =
     (sdrop 4 g, pts @ [last (snd (regressCsvDummy1_body noise j (g, [])))])"
  by (simp add: regressCsvDummy1_body_def randUniform_def math_random_def Let_def eval_nat_numeral)

lemma regressCsvDummy2_body_eq:
  "regressCsvDummy2_body noise j (g, pts) =
     (sdrop 4 g, pts @ [last (snd (regressCsvDummy2_body noise j (g, [])))])"
  by (simp add: regressCsvDummy2_body_def randUniform_def math_random_def Let_def eval_nat_numeral)

lemma classifyXORData_length: "length (fst (classifyXORData n noise g)) = n"
  by (simp add: classifyXORData_def split_beta for_loop_gen_length [OF classifyXORData_body_eq])

lemma regressPlane_length: "length (fst (regressPlane n noise g)) = n"
  by (simp add: regressPlane_def split_beta for_loop_gen_length [OF regressPlane_body_eq])

lemma regressGaussian_length: "length (fst (regressGaussian n noise g)) = n"
  by (simp add: regressGaussian_def split_beta for_loop_gen_length [OF regressGaussian_body_eq])

lemma classifySpiralData_length: "length (fst (classifySpiralData n noise g)) = 2 * ((n + 1) div 2)"
  by (simp add: classifySpiralData_def genSpiral_def split_beta Let_def for_loop_gen_length [OF genSpiral_body_eq] ceil_half)

lemma classifyCircleData_length: "length (fst (classifyCircleData n noise g)) = 2 * ((n + 1) div 2)"
  by (simp add: classifyCircleData_def split_beta Let_def for_loop_gen_length [OF circle_body_eq] ceil_half)

lemma classifyCsvDummy2_length: "length (fst (classifyCsvDummy2 n noise g)) = 160"
  by (simp add: classifyCsvDummy2_def split_beta for_loop_gen_length [OF classifyCsvDummy2_body_eq])

lemma regressCsvDummy1_length: "length (fst (regressCsvDummy1 n noise g)) = 200"
  by (simp add: regressCsvDummy1_def split_beta for_loop_gen_length [OF regressCsvDummy1_body_eq])

lemma regressCsvDummy2_length: "length (fst (regressCsvDummy2 n noise g)) = 200"
  by (simp add: regressCsvDummy2_def split_beta for_loop_gen_length [OF regressCsvDummy2_body_eq])

section \<open>normalRandom and the generators that call it\<close>

lemma normalRandom_accept:
  "accepted g \<Longrightarrow> \<exists>res. normalRandom mean variance g = Some (res, sdrop 2 g)"
  by (subst normalRandom.simps) (simp add: accepted_def math_random_def Let_def eval_nat_numeral)

lemma normalRandom_reject:
  "\<not> accepted g \<Longrightarrow> normalRandom mean variance g = normalRandom mean variance (sdrop 2 g)"
  by (subst normalRandom.simps) (simp add: accepted_def math_random_def Let_def eval_nat_numeral)

lemma normalRandom_returns:
  "accepted (sdrop (2 * j) g) \<Longrightarrow> \<exists>res k. normalRandom mean variance g = Some (res, sdrop k g)"
proof (induction j arbitrary: g)
  case 0
  then show ?case using normalRandom_accept [of g mean variance] by auto
next
  case (Suc j)
  show ?case
  proof (cases "accepted g")
    case True
    then show ?thesis using normalRandom_accept [of g mean variance] by auto
  next
    case False
    have "accepted (sdrop (2 * j) (sdrop 2 g))" using Suc.prems by (simp add: add.commute)
    then obtain res k where "normalRandom mean variance (sdrop 2 g) = Some (res, sdrop k (sdrop 2 g))"
      using Suc.IH by blast
    then have "normalRandom mean variance g = Some (res, sdrop (2 + k) g)"
      using normalRandom_reject [OF False, of mean variance] by (simp only: sdrop_add)
    then show ?thesis by blast
  qed
qed

lemma accepting_sdrop: "accepting g \<Longrightarrow> accepting (sdrop k g)"
  unfolding accepting_def
proof
  fix m assume a: "\<forall>k. \<exists>j. accepted (sdrop (k + 2 * j) g)"
  then obtain j where "accepted (sdrop ((k + m) + 2 * j) g)" by blast
  then show "\<exists>j. accepted (sdrop (m + 2 * j) (sdrop k g))"
    by (auto simp: add.assoc)
qed

lemma accepting_normalRandom:
  assumes "accepting g"
  shows "\<exists>res k. normalRandom mean variance g = Some (res, sdrop k g)"
proof -
  obtain j where "accepted (sdrop (0 + 2 * j) g)" using assms unfolding accepting_def by blast
  then show ?thesis using normalRandom_returns [of j g] by simp
qed

lemma genGauss_body_returns:
  assumes "accepting (fst s)"
  shows "\<exists>s'. genGauss_body variance cx cy lab j s = Some s' \<and> accepting (fst s')"
proof -
  obtain g pts where s: "s = (g, pts)" by (cases s)
  obtain x k where x: "normalRandom cx variance g = Some (x, sdrop k g)"
    using accepting_normalRandom assms s by fastforce
  have "accepting (sdrop k g)" using assms s by (simp add: accepting_sdrop)
  then obtain y m where y: "normalRandom cy variance (sdrop k g) = Some (y, sdrop m (sdrop k g))"
    using accepting_normalRandom by blast
  have "accepting (sdrop m (sdrop k g))" using assms s by (simp add: accepting_sdrop)
  then show ?thesis using x y s by (simp add: genGauss_body_def)
qed

lemma genGauss_body_length:
  "genGauss_body variance cx cy lab j s = Some s' \<Longrightarrow> length (snd s') = Suc (length (snd s))"
  by (auto simp: genGauss_body_def split: prod.splits option.splits)

lemma genGauss_body_label:
  "genGauss_body variance cx cy lab j s = Some s' \<Longrightarrow> lab = 1 \<or> lab = - 1 \<Longrightarrow>
   \<forall>p \<in> set (snd s). pm_one p \<Longrightarrow> \<forall>p \<in> set (snd s'). pm_one p"
  by (auto simp: genGauss_body_def pm_one_def split: prod.splits option.splits)

lemma genGauss_returns:
  assumes "accepting (fst st)"
  shows "\<exists>st'. genGauss n variance cx cy lab st = Some st' \<and> accepting (fst st')"
  unfolding genGauss_def
proof (rule for_loop_opt_returns [where I = "\<lambda>s. accepting (fst s)"])
  show "accepting (fst st)" by (rule assms)
next
  fix j and s :: gen_state assume "accepting (fst s)"
  then show "\<exists>s'. genGauss_body variance cx cy lab j s = Some s' \<and> accepting (fst s')"
    by (rule genGauss_body_returns)
qed

lemma genGauss_length:
  assumes "genGauss n variance cx cy lab st = Some st'"
  shows "length (snd st') = length (snd st) + (n + 1) div 2"
  using for_loop_opt_length [OF assms [unfolded genGauss_def] genGauss_body_length]
  by (simp add: ceil_half)

lemma genGauss_labels:
  assumes "genGauss n variance cx cy lab st = Some st'" and "lab = 1 \<or> lab = - 1"
    and "\<forall>p \<in> set (snd st). pm_one p"
  shows "\<forall>p \<in> set (snd st'). pm_one p"
proof (rule for_loop_opt_invariant [where I = "\<lambda>s. \<forall>p \<in> set (snd s). pm_one p",
      OF assms(1) [unfolded genGauss_def]])
  show "\<forall>p \<in> set (snd st). pm_one p" by (rule assms(3))
next
  fix j s s' assume "\<forall>p \<in> set (snd s). pm_one p" "genGauss_body variance cx cy lab j s = Some s'"
  then show "\<forall>p \<in> set (snd s'). pm_one p" using genGauss_body_label assms(2) by blast
qed

lemma classifyTwoGaussData_Some:
  assumes "classifyTwoGaussData n noise g = Some (pts, g')"
  obtains v st1 where "genGauss n v 2 2 1 (g, []) = Some st1"
    and "genGauss n v (- 2) (- 2) (- 1) st1 = Some (g', pts)"
  using assms by (auto simp: classifyTwoGaussData_def Let_def split: option.splits)

lemma classifyTwoGaussData_returns:
  assumes "accepting g"
  shows "\<exists>pts g'. classifyTwoGaussData n noise g = Some (pts, g')"
proof -
  define v where "v = linear_scale (0, 0.5) (0.5, 4) False noise"
  have a: "accepting (fst (g, []::example2D list))" using assms by simp
  obtain st1 where st1: "genGauss n v 2 2 1 (g, []) = Some st1" "accepting (fst st1)"
    using genGauss_returns [OF a] by blast
  obtain st2 where st2: "genGauss n v (- 2) (- 2) (- 1) st1 = Some st2"
    using genGauss_returns [OF st1(2)] by blast
  show ?thesis using st1 st2 by (simp add: classifyTwoGaussData_def v_def split_beta)
qed

lemma classifyTwoGaussData_length:
  assumes "classifyTwoGaussData n noise g = Some (pts, g')"
  shows "length pts = 2 * ((n + 1) div 2)"
proof -
  obtain v st1 where st1: "genGauss n v 2 2 1 (g, []) = Some st1"
    and st2: "genGauss n v (- 2) (- 2) (- 1) st1 = Some (g', pts)"
    using assms by (rule classifyTwoGaussData_Some)
  show ?thesis using genGauss_length [OF st1] genGauss_length [OF st2] by simp
qed

lemma classifyTwoGaussData_labels:
  assumes "classifyTwoGaussData n noise g = Some (pts, g')"
  shows "\<forall>p \<in> set pts. pm_one p"
proof -
  obtain v st1 where st1: "genGauss n v 2 2 1 (g, []) = Some st1"
    and st2: "genGauss n v (- 2) (- 2) (- 1) st1 = Some (g', pts)"
    using assms by (rule classifyTwoGaussData_Some)
  have "\<forall>p \<in> set (snd st1). pm_one p" using genGauss_labels [OF st1] by simp
  then show ?thesis using genGauss_labels [OF st2] by simp
qed

section \<open>The classification generators: labels\<close>

lemma add_body_returns:
  assumes "accepting (fst s)"
  shows "\<exists>s'. add_body noise cx cy lab j s = Some s' \<and> accepting (fst s')"
proof -
  obtain g pts where s: "s = (g, pts)" by (cases s)
  obtain x k where x: "normalRandom cx (0.4 + noise) g = Some (x, sdrop k g)"
    using accepting_normalRandom assms s by fastforce
  have "accepting (sdrop k g)" using assms s by (simp add: accepting_sdrop)
  then obtain y m where y: "normalRandom cy (0.4 + noise) (sdrop k g) = Some (y, sdrop m (sdrop k g))"
    using accepting_normalRandom by blast
  have "accepting (sdrop m (sdrop k g))" using assms s by (simp add: accepting_sdrop)
  then show ?thesis using x y s by (simp add: add_body_def)
qed

lemma add_body_length:
  "add_body noise cx cy lab j s = Some s' \<Longrightarrow> length (snd s') = Suc (length (snd s))"
  by (auto simp: add_body_def split: prod.splits option.splits)

lemma add_body_label:
  "add_body noise cx cy lab j s = Some s' \<Longrightarrow> lab = 1 \<or> lab = - 1 \<Longrightarrow>
   \<forall>p \<in> set (snd s). pm_one p \<Longrightarrow> \<forall>p \<in> set (snd s'). pm_one p"
  by (auto simp: add_body_def pm_one_def split: prod.splits option.splits)

lemma add_returns:
  assumes "accepting (fst st)"
  shows "\<exists>st'. add noise cx cy lab n st = Some st' \<and> accepting (fst st')"
  unfolding add_def
proof (rule for_loop_opt_returns [where I = "\<lambda>s. accepting (fst s)"])
  show "accepting (fst st)" by (rule assms)
next
  fix j and s :: gen_state assume "accepting (fst s)"
  then show "\<exists>s'. add_body noise cx cy lab j s = Some s' \<and> accepting (fst s')"
    by (rule add_body_returns)
qed

lemma add_length:
  assumes "add noise cx cy lab n st = Some st'"
  shows "length (snd st') = length (snd st) + nat \<lceil>n\<rceil>"
  using for_loop_opt_length [OF assms [unfolded add_def] add_body_length] by simp

lemma add_labels:
  assumes "add noise cx cy lab n st = Some st'" and "lab = 1 \<or> lab = - 1"
    and "\<forall>p \<in> set (snd st). pm_one p"
  shows "\<forall>p \<in> set (snd st'). pm_one p"
proof (rule for_loop_opt_invariant [where I = "\<lambda>s. \<forall>p \<in> set (snd s). pm_one p",
      OF assms(1) [unfolded add_def]])
  show "\<forall>p \<in> set (snd st). pm_one p" by (rule assms(3))
next
  fix j s s' assume "\<forall>p \<in> set (snd s). pm_one p" "add_body noise cx cy lab j s = Some s'"
  then show "\<forall>p \<in> set (snd s'). pm_one p" using add_body_label assms(2) by blast
qed

lemma classifyCsvDummy1_Some:
  assumes "classifyCsvDummy1 n noise g = Some (pts, g')"
  obtains st1 where "add noise 2.5 2.5 1 80 (g, []) = Some st1"
    and "add noise (- 2.5) (- 2.5) (- 1) 80 st1 = Some (g', pts)"
  using assms by (auto simp: classifyCsvDummy1_def split: option.splits)

lemma classifyCsvDummy1_returns:
  assumes "accepting g"
  shows "\<exists>pts g'. classifyCsvDummy1 n noise g = Some (pts, g')"
proof -
  have a: "accepting (fst (g, []::example2D list))" using assms by simp
  obtain st1 where st1: "add noise 2.5 2.5 1 80 (g, []) = Some st1" "accepting (fst st1)"
    using add_returns [OF a] by blast
  obtain st2 where st2: "add noise (- 2.5) (- 2.5) (- 1) 80 st1 = Some st2"
    using add_returns [OF st1(2)] by blast
  show ?thesis using st1 st2 by (simp add: classifyCsvDummy1_def split_beta)
qed

lemma classifyCsvDummy1_length:
  assumes "classifyCsvDummy1 n noise g = Some (pts, g')"
  shows "length pts = 160"
proof -
  obtain st1 where st1: "add noise 2.5 2.5 1 80 (g, []) = Some st1"
    and st2: "add noise (- 2.5) (- 2.5) (- 1) 80 st1 = Some (g', pts)"
    using assms by (rule classifyCsvDummy1_Some)
  show ?thesis using add_length [OF st1] add_length [OF st2] by simp
qed

lemma classifyCsvDummy1_labels:
  assumes "classifyCsvDummy1 n noise g = Some (pts, g')"
  shows "\<forall>p \<in> set pts. pm_one p"
proof -
  obtain st1 where st1: "add noise 2.5 2.5 1 80 (g, []) = Some st1"
    and st2: "add noise (- 2.5) (- 2.5) (- 1) 80 st1 = Some (g', pts)"
    using assms by (rule classifyCsvDummy1_Some)
  have "\<forall>p \<in> set (snd st1). pm_one p" using add_labels [OF st1] by simp
  then show ?thesis using add_labels [OF st2] by simp
qed

lemma genSpiral_labels:
  assumes "lab = 1 \<or> lab = - 1" and "\<forall>p \<in> set (snd st). pm_one p"
  shows "\<forall>p \<in> set (snd (genSpiral n noise deltaT lab st)). pm_one p"
  unfolding genSpiral_def
proof (rule for_loop_gen_all [OF genSpiral_body_eq _ assms(2)])
  fix j g
  show "pm_one (last (snd (genSpiral_body n noise deltaT lab j (g, []))))"
    using assms(1)
    by (auto simp: genSpiral_body_def randUniform_def math_random_def Let_def pm_one_def)
qed

lemma classifySpiralData_labels: "\<forall>p \<in> set (fst (classifySpiralData n noise g)). pm_one p"
proof -
  have "\<forall>p \<in> set (snd (genSpiral (real n / 2) noise 0 1 (g, []))). pm_one p"
    by (rule genSpiral_labels) simp_all
  then have "\<forall>p \<in> set (snd (genSpiral (real n / 2) noise pi (- 1)
      (genSpiral (real n / 2) noise 0 1 (g, [])))). pm_one p"
    by (rule genSpiral_labels [rotated]) simp
  then show ?thesis by (simp add: classifySpiralData_def Let_def split_beta)
qed

lemma circle_loop_labels:
  assumes "\<forall>p \<in> set (snd st). pm_one p"
  shows "\<forall>p \<in> set (snd (for_loop bound (circle_body radius lo hi noise) i st)). pm_one p"
proof (rule for_loop_gen_all [OF circle_body_eq _ assms])
  fix j g
  show "pm_one (last (snd (circle_body radius lo hi noise j (g, []))))"
    by (simp add: circle_body_def randUniform_def math_random_def Let_def pm_one_def getCircleLabel_def)
qed

lemma classifyCircleData_labels: "\<forall>p \<in> set (fst (classifyCircleData n noise g)). pm_one p"
proof -
  have "\<forall>p \<in> set (snd (for_loop (real n / 2) (circle_body 5 0 (5 * 0.5) noise) 0 (g, []))). pm_one p"
    by (rule circle_loop_labels) simp
  then have "\<forall>p \<in> set (snd (for_loop (real n / 2) (circle_body 5 (5 * 0.7) 5 noise) 0
      (for_loop (real n / 2) (circle_body 5 0 (5 * 0.5) noise) 0 (g, [])))). pm_one p"
    by (rule circle_loop_labels)
  then show ?thesis by (simp add: classifyCircleData_def Let_def split_beta)
qed

lemma classifyXORData_labels: "\<forall>p \<in> set (fst (classifyXORData n noise g)). pm_one p"
proof -
  have "\<forall>p \<in> set (snd (for_loop (real n) (classifyXORData_body noise) 0 (g, []))). pm_one p"
  proof (rule for_loop_gen_all [OF classifyXORData_body_eq])
    fix j g
    show "pm_one (last (snd (classifyXORData_body noise j (g, []))))"
      by (simp add: classifyXORData_body_def randUniform_def math_random_def Let_def pm_one_def
          getXORLabel_def)
  qed simp
  then show ?thesis by (simp add: classifyXORData_def split_beta)
qed

lemma classifyCsvDummy2_labels: "\<forall>p \<in> set (fst (classifyCsvDummy2 n noise g)). pm_one p"
proof -
  have "\<forall>p \<in> set (snd (for_loop 160 (classifyCsvDummy2_body noise) 0 (g, []))). pm_one p"
  proof (rule for_loop_gen_all [OF classifyCsvDummy2_body_eq])
    fix j g
    show "pm_one (last (snd (classifyCsvDummy2_body noise j (g, []))))"
      by (simp add: classifyCsvDummy2_body_def randUniform_def math_random_def Let_def pm_one_def)
  qed simp
  then show ?thesis by (simp add: classifyCsvDummy2_def split_beta)
qed

lemma accepted_sconst: "accepted (sconst (3/4))"
  by (simp add: accepted_def Let_def)

lemma accepting_sconst: "accepting (sconst (3/4))"
  by (simp add: accepting_def accepted_sconst)

section \<open>classifyXORData: the label rule\<close>

lemma classifyXORData_body_point:
  "classifyXORData_body noise j (g, pts) = (sdrop 4 g, pts @ [
   (let x0 = (g !! 0) * 10 - 5;
        x = x0 + (if x0 > 0 then 0.3 else - 0.3);
        y0 = (g !! 1) * 10 - 5;
        y = y0 + (if y0 > 0 then 0.3 else - 0.3);
        noisyX = x + ((g !! 2) * 10 - 5) * noise;
        noisyY = y + ((g !! 3) * 10 - 5) * noise
    in \<lparr>ex_x = Num x, ex_y = Num y,
        label = Num (if noisyX * noisyY \<ge> 0 then 1 else - 1)\<rparr>)])"
  by (simp add: classifyXORData_body_def randUniform_def math_random_def getXORLabel_def
      Let_def eval_nat_numeral)

text \<open>
  Claim C10. The point of index \<open>i\<close> of \<open>classifyXORData\<close> is made from the four numbers
  the source yields from position \<open>4 * i\<close> on. Its stored coordinates are the padded
  coordinates, without the noise; its label is \<open>1\<close> exactly when the product of the
  coordinates with the noise added is greater than or equal to zero, and \<open>-1\<close> otherwise,
  so a product of exactly zero gives the label \<open>1\<close>.
\<close>

theorem classifyXORData_point:
  assumes "i < numSamples"
  shows "fst (classifyXORData numSamples noise g) ! i =
    (let r = sdrop (4 * i) g;
         x0 = (r !! 0) * 10 - 5;
         x = x0 + (if x0 > 0 then 0.3 else - 0.3);
         y0 = (r !! 1) * 10 - 5;
         y = y0 + (if y0 > 0 then 0.3 else - 0.3);
         noisyX = x + ((r !! 2) * 10 - 5) * noise;
         noisyY = y + ((r !! 3) * 10 - 5) * noise
     in \<lparr>ex_x = Num x, ex_y = Num y,
         label = Num (if noisyX * noisyY \<ge> 0 then 1 else - 1)\<rparr>)"
  using assms
  by (simp add: classifyXORData_def split_beta for_loop_gen [OF classifyXORData_body_point] Let_def)

text \<open>
  A point whose noisy product is exactly zero: the draws \<open>0.5, 0.5\<close> give the padded
  coordinates \<open>(-0.3, -0.3)\<close>, the draw \<open>0.6\<close> gives \<open>0.6 * 10 - 5 = 1\<close>, which the noise
  \<open>0.3\<close> turns into \<open>noiseX = 0.3\<close>, and the last draw \<open>0.5\<close> gives \<open>noiseY = 0\<close>. The noisy
  first coordinate is \<open>-0.3 + 0.3 = 0\<close>: the label is \<open>1\<close>, and the stored coordinates are
  the padded ones. Every step of this computation is exact in doubles as well, so the
  code gives the same point.
\<close>

theorem classifyXORData_point_witness:
  "(0::nat) < 1 \<and>
   fst (classifyXORData 1 (3/10) ([1/2, 1/2, 6/10, 1/2] @- sconst 0)) ! 0 =
     \<lparr>ex_x = Num (- 0.3), ex_y = Num (- 0.3), label = Num 1\<rparr>"
  using classifyXORData_point [of 0 1 "3/10" "[1/2, 1/2, 6/10, 1/2] @- sconst 0"]
  by (simp add: Let_def eval_nat_numeral)

section \<open>The classification generators: every label is 1 or -1\<close>

text \<open>
  Claim C8. Every label in the array returned by a classification generator
  (\<open>classifyTwoGaussData\<close>, \<open>classifySpiralData\<close>, \<open>classifyCircleData\<close>,
  \<open>classifyXORData\<close>, \<open>classifyCsvDummy1\<close>, \<open>classifyCsvDummy2\<close>) is exactly \<open>1\<close> or
  exactly \<open>-1\<close>, for every sample count, noise and random source. The two generators that
  call \<open>normalRandom\<close> return on every source that keeps supplying accepted pairs.
\<close>

theorem classification_labels:
  "(\<forall>pts g'. classifyTwoGaussData numSamples noise g = Some (pts, g') \<longrightarrow>
      (\<forall>p \<in> set pts. label p = Num 1 \<or> label p = Num (- 1))) \<and>
   (\<forall>p \<in> set (fst (classifySpiralData numSamples noise g)). label p = Num 1 \<or> label p = Num (- 1)) \<and>
   (\<forall>p \<in> set (fst (classifyCircleData numSamples noise g)). label p = Num 1 \<or> label p = Num (- 1)) \<and>
   (\<forall>p \<in> set (fst (classifyXORData numSamples noise g)). label p = Num 1 \<or> label p = Num (- 1)) \<and>
   (\<forall>pts g'. classifyCsvDummy1 numSamples noise g = Some (pts, g') \<longrightarrow>
      (\<forall>p \<in> set pts. label p = Num 1 \<or> label p = Num (- 1))) \<and>
   (\<forall>p \<in> set (fst (classifyCsvDummy2 numSamples noise g)). label p = Num 1 \<or> label p = Num (- 1)) \<and>
   (accepting g \<longrightarrow>
      (\<exists>pts g'. classifyTwoGaussData numSamples noise g = Some (pts, g')) \<and>
      (\<exists>pts g'. classifyCsvDummy1 numSamples noise g = Some (pts, g')))"
  using classifyTwoGaussData_labels [of numSamples noise g]
    classifySpiralData_labels [of numSamples noise g]
    classifyCircleData_labels [of numSamples noise g]
    classifyXORData_labels [of numSamples noise g]
    classifyCsvDummy1_labels [of numSamples noise g]
    classifyCsvDummy2_labels [of numSamples noise g]
    classifyTwoGaussData_returns [of g numSamples noise]
    classifyCsvDummy1_returns [of g numSamples noise]
  unfolding pm_one_def by blast

text \<open>The claim at two samples, noise zero and the source that always yields \<open>0.75\<close>.\<close>

theorem classification_labels_witness:
  "accepting (sconst (3/4)) \<and>
   (\<exists>pts g'. classifyTwoGaussData 2 0 (sconst (3/4)) = Some (pts, g') \<and> length pts = 2 \<and>
      (\<forall>p \<in> set pts. label p = Num 1 \<or> label p = Num (- 1))) \<and>
   (\<exists>pts g'. classifyCsvDummy1 2 0 (sconst (3/4)) = Some (pts, g') \<and> length pts = 160 \<and>
      (\<forall>p \<in> set pts. label p = Num 1 \<or> label p = Num (- 1))) \<and>
   (\<exists>p \<in> set (fst (classifySpiralData 2 0 (sconst (3/4)))). label p = Num 1 \<or> label p = Num (- 1)) \<and>
   (\<exists>p \<in> set (fst (classifyCircleData 2 0 (sconst (3/4)))). label p = Num 1 \<or> label p = Num (- 1)) \<and>
   (\<exists>p \<in> set (fst (classifyXORData 2 0 (sconst (3/4)))). label p = Num 1 \<or> label p = Num (- 1)) \<and>
   (\<exists>p \<in> set (fst (classifyCsvDummy2 2 0 (sconst (3/4)))). label p = Num 1 \<or> label p = Num (- 1))"
proof -
  note t = classification_labels [of 2 0 "sconst (3/4)"]
  have a: "accepting (sconst (3/4))" by (rule accepting_sconst)
  obtain pts g' where tg: "classifyTwoGaussData 2 0 (sconst (3/4)) = Some (pts, g')"
    using t a by blast
  obtain pts1 g1 where d1: "classifyCsvDummy1 2 0 (sconst (3/4)) = Some (pts1, g1)"
    using t a by blast
  have l: "length pts = 2" using classifyTwoGaussData_length [OF tg] by simp
  have l1: "length pts1 = 160" by (rule classifyCsvDummy1_length [OF d1])
  have b: "\<forall>p \<in> set pts. label p = Num 1 \<or> label p = Num (- 1)" using t tg by blast
  have b1: "\<forall>p \<in> set pts1. label p = Num 1 \<or> label p = Num (- 1)" using t d1 by blast
  have ne: "xs \<noteq> [] \<Longrightarrow> \<forall>p \<in> set xs. P p \<Longrightarrow> \<exists>p \<in> set xs. P p"
    for xs :: "example2D list" and P
    by (cases xs) auto
  have "fst (classifySpiralData 2 0 (sconst (3/4))) \<noteq> []"
    using classifySpiralData_length [of 2 0 "sconst (3/4)"] by auto
  then have s: "\<exists>p \<in> set (fst (classifySpiralData 2 0 (sconst (3/4)))).
      label p = Num 1 \<or> label p = Num (- 1)"
    using t by (intro ne) blast+
  have "fst (classifyCircleData 2 0 (sconst (3/4))) \<noteq> []"
    using classifyCircleData_length [of 2 0 "sconst (3/4)"] by auto
  then have c: "\<exists>p \<in> set (fst (classifyCircleData 2 0 (sconst (3/4)))).
      label p = Num 1 \<or> label p = Num (- 1)"
    using t by (intro ne) blast+
  have "fst (classifyXORData 2 0 (sconst (3/4))) \<noteq> []"
    using classifyXORData_length [of 2 0 "sconst (3/4)"] by auto
  then have x: "\<exists>p \<in> set (fst (classifyXORData 2 0 (sconst (3/4)))).
      label p = Num 1 \<or> label p = Num (- 1)"
    using t by (intro ne) blast+
  have "fst (classifyCsvDummy2 2 0 (sconst (3/4))) \<noteq> []"
    using classifyCsvDummy2_length [of 2 0 "sconst (3/4)"] by auto
  then have d: "\<exists>p \<in> set (fst (classifyCsvDummy2 2 0 (sconst (3/4)))).
      label p = Num 1 \<or> label p = Num (- 1)"
    using t by (intro ne) blast+
  show ?thesis using a tg d1 l l1 b b1 s c x d by simp
qed

section \<open>The generators: number of points\<close>

text \<open>
  Claim C1 as stated fails: with \<open>numSamples = 1\<close> both loops of \<open>classifyCircleData\<close>
  run once (\<open>0 < 1 / 2\<close>), so two points are returned.
\<close>

theorem generator_lengths_counterexample:
  "length (fst (classifyCircleData 1 0 (sconst 0))) \<noteq> 1"
  by (simp add: classifyCircleData_length)

text \<open>
  Claim C1, amended. \<open>classifyXORData\<close>, \<open>regressPlane\<close> and \<open>regressGaussian\<close> return
  exactly \<open>numSamples\<close> points. \<open>classifySpiralData\<close>, \<open>classifyCircleData\<close> and
  \<open>classifyTwoGaussData\<close>, which run two loops bounded by \<open>numSamples / 2\<close>, return exactly
  \<open>numSamples\<close> points when \<open>numSamples\<close> is even. The dummy presets return \<open>160\<close>, \<open>160\<close>,
  \<open>200\<close> and \<open>200\<close> points whatever \<open>numSamples\<close> is. The two generators that call
  \<open>normalRandom\<close> return on every source that keeps supplying accepted pairs.
\<close>

theorem generator_lengths:
  "length (fst (classifyXORData numSamples noise g)) = numSamples \<and>
   length (fst (regressPlane numSamples noise g)) = numSamples \<and>
   length (fst (regressGaussian numSamples noise g)) = numSamples \<and>
   (even numSamples \<longrightarrow>
      length (fst (classifySpiralData numSamples noise g)) = numSamples \<and>
      length (fst (classifyCircleData numSamples noise g)) = numSamples \<and>
      (\<forall>pts g'. classifyTwoGaussData numSamples noise g = Some (pts, g') \<longrightarrow>
         length pts = numSamples) \<and>
      (accepting g \<longrightarrow> (\<exists>pts g'. classifyTwoGaussData numSamples noise g = Some (pts, g')))) \<and>
   (\<forall>pts g'. classifyCsvDummy1 numSamples noise g = Some (pts, g') \<longrightarrow> length pts = 160) \<and>
   (accepting g \<longrightarrow> (\<exists>pts g'. classifyCsvDummy1 numSamples noise g = Some (pts, g'))) \<and>
   length (fst (classifyCsvDummy2 numSamples noise g)) = 160 \<and>
   length (fst (regressCsvDummy1 numSamples noise g)) = 200 \<and>
   length (fst (regressCsvDummy2 numSamples noise g)) = 200"
proof -
  have e: "even numSamples \<Longrightarrow> 2 * ((numSamples + 1) div 2) = numSamples"
    by (auto elim: evenE)
  show ?thesis
    using classifyTwoGaussData_length [of numSamples noise g]
      classifyTwoGaussData_returns [of g numSamples noise]
      classifyCsvDummy1_length [of numSamples noise g]
      classifyCsvDummy1_returns [of g numSamples noise]
    by (auto simp add: classifyXORData_length regressPlane_length regressGaussian_length
        classifySpiralData_length classifyCircleData_length classifyCsvDummy2_length
        regressCsvDummy1_length regressCsvDummy2_length e)
qed

text \<open>The amended claim at four samples, noise zero and the source that always yields
  \<open>0.75\<close>.\<close>

theorem generator_lengths_witness:
  "even (4::nat) \<and> accepting (sconst (3/4)) \<and>
   (\<exists>pts g'. classifyTwoGaussData 4 0 (sconst (3/4)) = Some (pts, g') \<and> length pts = 4) \<and>
   (\<exists>pts g'. classifyCsvDummy1 4 0 (sconst (3/4)) = Some (pts, g') \<and> length pts = 160) \<and>
   length (fst (classifySpiralData 4 0 (sconst (3/4)))) = 4 \<and>
   length (fst (classifyCircleData 4 0 (sconst (3/4)))) = 4"
proof -
  note t = generator_lengths [of 4 0 "sconst (3/4)"]
  have a: "accepting (sconst (3/4))" by (rule accepting_sconst)
  have e: "even (4::nat)" by simp
  obtain pts g' where tg: "classifyTwoGaussData 4 0 (sconst (3/4)) = Some (pts, g')"
    using t a e by blast
  obtain pts1 g1 where d1: "classifyCsvDummy1 4 0 (sconst (3/4)) = Some (pts1, g1)"
    using t a by blast
  have "length pts = 4" using t tg e by blast
  moreover have "length pts1 = 160" using t d1 by blast
  ultimately show ?thesis using a e t tg d1 by simp
qed

section \<open>regressGaussian: the label is the bump of greatest magnitude\<close>

lemma newLabel_bump_value: "newLabel x y c = bump_value x y c"
  by (simp add: newLabel_def bump_value_def regressGaussian_labelScale_def linear_scale_def
      dist2D_def Let_def power2_eq_square split: prod.splits)

lemma foldl_absmax:
  fixes f :: "'a \<Rightarrow> real"
  shows "cs \<noteq> [] \<Longrightarrow>
   \<exists>i < length cs. foldl (\<lambda>lab c. if \<bar>f c\<bar> > \<bar>lab\<bar> then f c else lab) 0 cs = f (cs ! i) \<and>
      (\<forall>j < length cs. \<bar>f (cs ! j)\<bar> \<le> \<bar>f (cs ! i)\<bar>) \<and>
      (\<forall>j < i. \<bar>f (cs ! j)\<bar> < \<bar>f (cs ! i)\<bar>)"
proof (induction cs rule: rev_induct)
  case Nil
  then show ?case by simp
next
  case (snoc c cs)
  let ?F = "foldl (\<lambda>lab c. if \<bar>f c\<bar> > \<bar>lab\<bar> then f c else lab) 0"
  show ?case
  proof (cases "cs = []")
    case True
    then show ?thesis by (auto intro!: exI [of _ 0])
  next
    case False
    then obtain i where i: "i < length cs" "?F cs = f (cs ! i)"
      "\<forall>j < length cs. \<bar>f (cs ! j)\<bar> \<le> \<bar>f (cs ! i)\<bar>" "\<forall>j < i. \<bar>f (cs ! j)\<bar> < \<bar>f (cs ! i)\<bar>"
      using snoc.IH by blast
    show ?thesis
    proof (cases "\<bar>f c\<bar> > \<bar>?F cs\<bar>")
      case True
      have "?F (cs @ [c]) = f ((cs @ [c]) ! length cs)" using True by simp
      moreover have "\<forall>j < length (cs @ [c]). \<bar>f ((cs @ [c]) ! j)\<bar> \<le> \<bar>f ((cs @ [c]) ! length cs)\<bar>"
        using True i by (auto simp: nth_append less_Suc_eq intro: order_trans less_imp_le)
      moreover have "\<forall>j < length cs. \<bar>f ((cs @ [c]) ! j)\<bar> < \<bar>f ((cs @ [c]) ! length cs)\<bar>"
        using True i by (auto simp: nth_append intro: le_less_trans)
      ultimately show ?thesis by (intro exI [of _ "length cs"]) simp
    next
      case False
      have "?F (cs @ [c]) = f ((cs @ [c]) ! i)" using False i by (simp add: nth_append)
      moreover have "\<forall>j < length (cs @ [c]). \<bar>f ((cs @ [c]) ! j)\<bar> \<le> \<bar>f ((cs @ [c]) ! i)\<bar>"
        using False i by (auto simp: nth_append less_Suc_eq)
      moreover have "\<forall>j < i. \<bar>f ((cs @ [c]) ! j)\<bar> < \<bar>f ((cs @ [c]) ! i)\<bar>"
        using i by (auto simp: nth_append)
      ultimately show ?thesis using i(1) by (intro exI [of _ i]) simp
    qed
  qed
qed

lemma regressGaussian_getLabel_max:
  "\<exists>i < 6. regressGaussian_getLabel x y = bump_value x y (gaussians ! i) \<and>
      (\<forall>j < 6. \<bar>bump_value x y (gaussians ! j)\<bar> \<le> \<bar>bump_value x y (gaussians ! i)\<bar>) \<and>
      (\<forall>j < i. \<bar>bump_value x y (gaussians ! j)\<bar> < \<bar>bump_value x y (gaussians ! i)\<bar>)"
proof -
  have ne: "gaussians \<noteq> []" and len: "length gaussians = 6" by (simp_all add: gaussians_def)
  have eq: "regressGaussian_getLabel x y =
      foldl (\<lambda>lab c. if \<bar>bump_value x y c\<bar> > \<bar>lab\<bar> then bump_value x y c else lab) 0 gaussians"
  proof -
    have "getLabel_step x y =
        (\<lambda>lab c. if \<bar>bump_value x y c\<bar> > \<bar>lab\<bar> then bump_value x y c else lab)"
      by (simp add: fun_eq_iff getLabel_step_def Let_def newLabel_bump_value)
    then show ?thesis by (simp only: regressGaussian_getLabel_def)
  qed
  show ?thesis using foldl_absmax [OF ne, of "bump_value x y"] unfolding eq len .
qed

lemma regressGaussian_body_point:
  "regressGaussian_body noise j (g, pts) = (sdrop 4 g, pts @ [
     (let x = (g !! 0) * 12 - 6;
          y = (g !! 1) * 12 - 6;
          noiseX = ((g !! 2) * 12 - 6) * noise;
          noiseY = ((g !! 3) * 12 - 6) * noise
      in \<lparr>ex_x = Num x, ex_y = Num y,
          label = Num (regressGaussian_getLabel (x + noiseX) (y + noiseY))\<rparr>)])"
  by (simp add: regressGaussian_body_def randUniform_def math_random_def Let_def eval_nat_numeral)

lemma regressGaussian_point:
  assumes "k < numSamples"
  shows "fst (regressGaussian numSamples noise g) ! k =
     (let r = sdrop (4 * k) g;
          x = (r !! 0) * 12 - 6;
          y = (r !! 1) * 12 - 6;
          noiseX = ((r !! 2) * 12 - 6) * noise;
          noiseY = ((r !! 3) * 12 - 6) * noise
      in \<lparr>ex_x = Num x, ex_y = Num y,
          label = Num (regressGaussian_getLabel (x + noiseX) (y + noiseY))\<rparr>)"
  using assms
  by (simp add: regressGaussian_def split_beta for_loop_gen [OF regressGaussian_body_point] Let_def)

lemma sqrt_far: "4 \<le> d \<Longrightarrow> min 1 (sqrt d / 2) = 1"
proof -
  assume "4 \<le> d"
  then have "sqrt 4 \<le> sqrt d" by (simp only: real_sqrt_le_iff)
  moreover have "sqrt 4 = 2" using real_sqrt_abs [of 2] by simp
  ultimately show ?thesis by simp
qed

text \<open>
  Claim C7. The label of the point of index \<open>k\<close> of \<open>regressGaussian\<close> is the bump value,
  at the coordinates with the noise added, of one of the six fixed centers: one whose bump
  value has the greatest absolute value, and among those the first of the list (every
  earlier center has a bump value of strictly smaller absolute value), since a later bump
  replaces the current one only when its absolute value is strictly greater.
\<close>

theorem regressGaussian_label:
  assumes "k < numSamples"
  shows "let r = sdrop (4 * k) g;
             qx = ((r !! 0) * 12 - 6) + ((r !! 2) * 12 - 6) * noise;
             qy = ((r !! 1) * 12 - 6) + ((r !! 3) * 12 - 6) * noise
         in \<exists>i < 6.
              label (fst (regressGaussian numSamples noise g) ! k) =
                Num (bump_value qx qy (gaussians ! i)) \<and>
              (\<forall>j < 6. \<bar>bump_value qx qy (gaussians ! j)\<bar> \<le> \<bar>bump_value qx qy (gaussians ! i)\<bar>) \<and>
              (\<forall>j < i. \<bar>bump_value qx qy (gaussians ! j)\<bar> < \<bar>bump_value qx qy (gaussians ! i)\<bar>)"
proof -
  define r where "r = sdrop (4 * k) g"
  define qx where "qx = ((r !! 0) * 12 - 6) + ((r !! 2) * 12 - 6) * noise"
  define qy where "qy = ((r !! 1) * 12 - 6) + ((r !! 3) * 12 - 6) * noise"
  have "label (fst (regressGaussian numSamples noise g) ! k) = Num (regressGaussian_getLabel qx qy)"
    using regressGaussian_point [OF assms, of noise g] by (simp add: Let_def r_def qx_def qy_def)
  then have "\<exists>i < 6.
              label (fst (regressGaussian numSamples noise g) ! k) =
                Num (bump_value qx qy (gaussians ! i)) \<and>
              (\<forall>j < 6. \<bar>bump_value qx qy (gaussians ! j)\<bar> \<le> \<bar>bump_value qx qy (gaussians ! i)\<bar>) \<and>
              (\<forall>j < i. \<bar>bump_value qx qy (gaussians ! j)\<bar> < \<bar>bump_value qx qy (gaussians ! i)\<bar>)"
    using regressGaussian_getLabel_max [of qx qy] by auto
  then show ?thesis unfolding Let_def qx_def qy_def r_def .
qed

text \<open>
  A point on the first center \<open>(-4, 2.5)\<close>: its bump value there is \<open>1\<close>, the one of every
  other center is \<open>0\<close>, and the label is \<open>1\<close>.
\<close>

theorem regressGaussian_label_witness:
  "(0::nat) < 1 \<and>
   label (fst (regressGaussian 1 0 ([1/6, 17/24, 0, 0] @- sconst 0)) ! 0) = Num 1"
proof -
  let ?g = "[1/6, 17/24, 0, 0] @- sconst (0::real)"
  have b0: "bump_value (- 4) (5/2) (gaussians ! 0) = 1"
    by (simp add: gaussians_def bump_value_def)
  have bj: "bump_value (- 4) (5/2) (gaussians ! j) = 0" if "0 < j" "j < 6" for j
  proof -
    from that have "j = 1 \<or> j = 2 \<or> j = 3 \<or> j = 4 \<or> j = 5" by arith
    then show ?thesis
      by (auto simp: gaussians_def bump_value_def sqrt_far power2_eq_square)
  qed
  from regressGaussian_label [of 0 1 ?g 0]
  obtain i where i: "i < 6"
      "label (fst (regressGaussian 1 0 ?g) ! 0) = Num (bump_value (- 4) (5/2) (gaussians ! i))"
      "\<forall>j < 6. \<bar>bump_value (- 4) (5/2) (gaussians ! j)\<bar> \<le> \<bar>bump_value (- 4) (5/2) (gaussians ! i)\<bar>"
    by (auto simp: Let_def eval_nat_numeral)
  have "i = 0"
  proof (rule ccontr)
    assume "i \<noteq> 0"
    then have "bump_value (- 4) (5/2) (gaussians ! i) = 0" using bj i(1) by simp
    moreover have "\<bar>bump_value (- 4) (5/2) (gaussians ! 0)\<bar> \<le> \<bar>bump_value (- 4) (5/2) (gaussians ! i)\<bar>"
      using i(3) by simp
    ultimately show False using b0 by simp
  qed
  then show ?thesis using i(2) b0 by simp
qed

section \<open>The regression generators: range of the labels\<close>















section \<open>normalRandom: the case of a zero sum\<close>

text \<open>
  Claim C4 says that the rejection loop accepts a pair only when \<open>0 < s \<le> 1\<close>, so that no
  logarithm of zero is taken and the result is finite. The exit test of the code is
  \<open>s > 1\<close> alone. When \<open>Math.random()\<close> returns \<open>0.5\<close> twice, \<open>v1 = v2 = 0\<close> and \<open>s = 0\<close>: the
  loop exits, \<open>Math.log(0)\<close> is minus infinity, the quotient by \<open>s\<close> and its square root are
  infinite, and the product with \<open>v1 = 0\<close> is NaN, for every mean and variance.
\<close>

theorem normalRandom_zero_sum:
  "normalRandom mean variance (sconst (1/2)) = Some (NaN, sconst (1/2))"
proof -
  have "js_mul (js_sqrt (Num variance)) NaN = NaN" by (cases "variance < 0") simp_all
  then show ?thesis
    by (subst normalRandom.simps) (simp add: math_random_def Let_def)
qed

text \<open>That source respects the contract of \<open>Math.random()\<close>.\<close>

lemma unit_draws_half: "unit_draws (sconst (1/2))"
  by (simp add: unit_draws_def)

text \<open>Away from that case an accepted pair gives a finite number, as the claim says.\<close>

lemma normalRandom_finite:
  assumes "accepted g" and "shd g \<noteq> 1/2 \<or> shd (stl g) \<noteq> 1/2" and "0 \<le> variance"
  shows "\<exists>v. normalRandom mean variance g = Some (Num v, sdrop 2 g)"
proof -
  define v1 where "v1 = 2 * shd g - 1"
  define v2 where "v2 = 2 * shd (stl g) - 1"
  define s where "s = v1 * v1 + v2 * v2"
  have "v1 \<noteq> 0 \<or> v2 \<noteq> 0" using assms(2) by (auto simp: v1_def v2_def)
  then have s0: "0 < s"
    unfolding s_def
    by (metis add_pos_nonneg add_nonneg_pos zero_le_square not_real_square_gt_zero)
  have s1: "s \<le> 1" using assms(1) by (simp add: accepted_def Let_def s_def v1_def v2_def)
  have "ln s \<le> 0" using s0 s1 by simp
  then have "0 \<le> - 2 * ln s / s" using s0 by (simp add: field_simps)
  then show ?thesis
    using s0 s1 assms(3)
    by (subst normalRandom.simps)
       (simp add: math_random_def Let_def eval_nat_numeral v1_def [symmetric] v2_def [symmetric]
          s_def [symmetric] not_less)
qed

section \<open>shuffle is a permutation\<close>

lemma unit_draws_stl: "unit_draws g \<Longrightarrow> unit_draws (stl g)"
  unfolding unit_draws_def using stl_sset by fastforce

lemma unit_draws_shd: "unit_draws g \<Longrightarrow> 0 \<le> shd g \<and> shd g < 1"
  unfolding unit_draws_def using shd_sset by blast

lemma floor_index:
  fixes r :: real
  assumes "0 \<le> r" "r < 1" "0 < counter"
  shows "0 \<le> \<lfloor>r * real counter\<rfloor> \<and> nat \<lfloor>r * real counter\<rfloor> < counter"
proof -
  have "r * real counter < real counter" using assms by simp
  then have "\<lfloor>r * real counter\<rfloor> < int counter" by (simp add: floor_less_iff)
  moreover have "0 \<le> \<lfloor>r * real counter\<rfloor>" using assms by simp
  ultimately show ?thesis by linarith
qed

lemma swap_cells:
  assumes "i < length (cells a)" "j < length (cells a)"
  shows "js_set (js_set a (int j) (js_get a (int i))) (int i) (js_get a (int j)) =
         a\<lparr>cells := (cells a)[j := cells a ! i, i := cells a ! j]\<rparr>"
  using assms by (simp add: js_set_def js_get_def)

lemma shuffle_loop_perm:
  "unit_draws g \<Longrightarrow> counter \<le> length (cells array) \<Longrightarrow>
   mset (cells (fst (shuffle_loop counter array g))) = mset (cells array) \<and>
   props (fst (shuffle_loop counter array g)) = props array \<and>
   snd (shuffle_loop counter array g) = sdrop counter g"
proof (induction counter array g rule: shuffle_loop.induct)
  case (1 counter array g)
  show ?case
  proof (cases "counter > 0")
    case False
    then show ?thesis by (simp add: shuffle_loop.simps)
  next
    case True
    define index where "index = \<lfloor>shd g * real counter\<rfloor>"
    define i where "i = nat index"
    define j where "j = counter - 1"
    have idx: "0 \<le> index" "i < counter"
      using floor_index [of "shd g" counter] unit_draws_shd [OF "1.prems"(1)] True
      by (simp_all add: index_def i_def)
    have ii: "index = int i" using idx by (simp add: i_def)
    have lt: "i < length (cells array)" "j < length (cells array)"
      using idx "1.prems"(2) True by (simp_all add: j_def)
    define array2 where "array2 = array\<lparr>cells := (cells array)[j := cells array ! i, i := cells array ! j]\<rparr>"
    have "shuffle_loop counter array g =
        shuffle_loop j (js_set (js_set array (int j) (js_get array index)) index
          (js_get array (int j))) (stl g)"
      by (subst shuffle_loop.simps)
         (simp only: True if_True math_random_def prod.case Let_def index_def j_def)
    then have step: "shuffle_loop counter array g = shuffle_loop j array2 (stl g)"
      using swap_cells [OF lt] by (simp only: ii array2_def)
    have m: "mset (cells array2) = mset (cells array)"
      using mset_swap [OF lt] by (simp add: array2_def)
    have le: "j \<le> length (cells array2)" using lt by (simp add: array2_def)
    have ih: "mset (cells (fst (shuffle_loop j array2 (stl g)))) = mset (cells array2) \<and>
        props (fst (shuffle_loop j array2 (stl g))) = props array2 \<and>
        snd (shuffle_loop j array2 (stl g)) = sdrop j (stl g)"
    proof (rule "1.IH" [OF True])
      show "(shd g, stl g) = math_random g" by (simp add: math_random_def)
      show "index = \<lfloor>shd g * real counter\<rfloor>" by (rule index_def)
      show "j = counter - 1" by (rule j_def)
      show "js_get array (int j) = js_get array (int j)" ..
      show "js_set array (int j) (js_get array index) = js_set array (int j) (js_get array index)" ..
      show "array2 = js_set (js_set array (int j) (js_get array index)) index (js_get array (int j))"
        using swap_cells [OF lt] by (simp add: ii array2_def)
      show "unit_draws (stl g)" using "1.prems"(1) by (rule unit_draws_stl)
      show "j \<le> length (cells array2)" by (rule le)
    qed
    have "sdrop j (stl g) = sdrop counter g" using True by (cases counter) (simp_all add: j_def)
    then show ?thesis using ih m by (simp add: step array2_def)
  qed
qed

text \<open>
  Claim C6. When \<open>Math.random()\<close> yields numbers of \<open>[0, 1)\<close>, \<open>shuffle\<close> returns for
  every array (the model is a total function); it runs one round for every position (it
  consumes exactly as many random numbers as the array has elements), the array keeps its
  length, and its elements afterwards are a permutation of the elements before: the same
  elements with the same multiplicities.
\<close>

theorem shuffle_permutation:
  assumes "unit_draws g"
  shows "mset (cells (fst (shuffle array g))) = mset (cells array) \<and>
         length (cells (fst (shuffle array g))) = length (cells array) \<and>
         props (fst (shuffle array g)) = props array \<and>
         snd (shuffle array g) = sdrop (length (cells array)) g"
proof -
  have p: "mset (cells (fst (shuffle array g))) = mset (cells array) \<and>
      props (fst (shuffle array g)) = props array \<and>
      snd (shuffle array g) = sdrop (length (cells array)) g"
    unfolding shuffle_def by (rule shuffle_loop_perm [OF assms]) simp
  then have "length (cells (fst (shuffle array g))) = length (cells array)"
    by (intro mset_eq_length) simp
  then show ?thesis using p by simp
qed

text \<open>The array \<open>[1, 2, 3]\<close> with all draws at \<open>0.5\<close> becomes \<open>[1, 3, 2]\<close>.\<close>

lemma shuffle_loop_half:
  "0 < counter \<Longrightarrow> shuffle_loop counter array (sconst (1/2)) =
     shuffle_loop (counter - 1)
       (js_set (js_set array (int (counter - 1)) (js_get array \<lfloor>1/2 * real counter\<rfloor>))
          \<lfloor>1/2 * real counter\<rfloor> (js_get array (int (counter - 1))))
       (sconst (1/2))"
  by (subst shuffle_loop.simps) (simp add: math_random_def Let_def)

lemma shuffle_example:
  "shuffle \<lparr>cells = [Some (1::nat), Some 2, Some 3], props = (\<lambda>i. None)\<rparr> (sconst (1/2))
     = (\<lparr>cells = [Some 1, Some 3, Some 2], props = (\<lambda>i. None)\<rparr>, sconst (1/2))"
proof -
  let ?g = "sconst (1/2 :: real)"
  let ?A = "\<lparr>cells = [Some (1::nat), Some 2, Some 3], props = (\<lambda>i. None)\<rparr>"
  let ?B = "\<lparr>cells = [Some (1::nat), Some 3, Some 2], props = (\<lambda>i. None)\<rparr>"
  have f3: "\<lfloor>1/2 * real (3::nat)\<rfloor> = 1" by simp
  have f2: "\<lfloor>1/2 * real (2::nat)\<rfloor> = 1" by simp
  have f1: "\<lfloor>1/2 * real (1::nat)\<rfloor> = 0" by simp
  have "shuffle_loop 3 ?A ?g = shuffle_loop 2 ?B ?g"
    by (subst shuffle_loop_half) (simp_all add: f3 js_get_def js_set_def)
  also have "\<dots> = shuffle_loop 1 ?B ?g"
    by (subst shuffle_loop_half) (simp_all add: f2 js_get_def js_set_def)
  also have "\<dots> = shuffle_loop 0 ?B ?g"
    by (subst shuffle_loop_half) (simp_all add: f1 js_get_def js_set_def)
  also have "\<dots> = (?B, ?g)" by (simp add: shuffle_loop.simps)
  finally show ?thesis by (simp add: shuffle_def numeral_3_eq_3)
qed

theorem shuffle_permutation_witness:
  "unit_draws (sconst (1/2)) \<and>
   cells (fst (shuffle \<lparr>cells = [Some (1::nat), Some 2, Some 3], props = (\<lambda>i. None)\<rparr> (sconst (1/2))))
     = [Some 1, Some 3, Some 2] \<and>
   mset (cells (fst (shuffle \<lparr>cells = [Some (1::nat), Some 2, Some 3], props = (\<lambda>i. None)\<rparr> (sconst (1/2)))))
     = mset [Some 1, Some 2, Some 3] \<and>
   length (cells (fst (shuffle \<lparr>cells = [Some (1::nat), Some 2, Some 3], props = (\<lambda>i. None)\<rparr> (sconst (1/2)))))
     = 3 \<and>
   snd (shuffle \<lparr>cells = [Some (1::nat), Some 2, Some 3], props = (\<lambda>i. None)\<rparr> (sconst (1/2)))
     = sconst (1/2)"
proof -
  have u: "unit_draws (sconst (1/2))" by (simp add: unit_draws_def)
  have e: "cells (fst (shuffle \<lparr>cells = [Some (1::nat), Some 2, Some 3], props = (\<lambda>i. None)\<rparr>
      (sconst (1/2)))) = [Some 1, Some 3, Some 2]"
    by (simp only: shuffle_example fst_conv js_array.simps)
  show ?thesis
    using shuffle_permutation [OF u, of "\<lparr>cells = [Some (1::nat), Some 2, Some 3], props = (\<lambda>i. None)\<rparr>"]
      u e
    by simp
qed

section \<open>generatorFromExamples: a shallow copy\<close>

text \<open>
  Claim C5 as stated fails for the points: \<open>slice\<close> copies the array, not the points it
  holds. After \<open>g = generatorFromExamples(a)\<close>, \<open>c = g(5, 0)\<close> and \<open>c[0].label = 7\<close>, the
  label of the point of the backing array \<open>a\<close> is \<open>7\<close> too.
\<close>

theorem generatorFromExamples_counterexample:
  "contents 0 store0 = [\<lparr>ex_x = Num 1, ex_y = Num 2, label = Num 1\<rparr>] \<and>
   contents 0
     (write_object (arrays (snd (generatorFromExamples 0 5 0 store0))
                      (fst (generatorFromExamples 0 5 0 store0)) ! 0)
        \<lparr>ex_x = Num 1, ex_y = Num 2, label = Num 7\<rparr>
        (snd (generatorFromExamples 0 5 0 store0)))
     = [\<lparr>ex_x = Num 1, ex_y = Num 2, label = Num 7\<rparr>]"
  by (simp add: generatorFromExamples_def slice_def write_object_def contents_def store0_def Let_def)

text \<open>
  Claim C5, amended. The generator ignores \<open>numSamples\<close> and \<open>noise\<close>. Every call returns a
  new array, different from the backing array and from the array of any other call, that
  holds the same points as the backing array. A change of a returned array itself
  (whatever its elements become) changes neither the backing array nor another returned
  copy. The points are shared: the copy is shallow.
\<close>

theorem generatorFromExamples_shallow_copy:
  assumes "examples < next_array h"
  shows "generatorFromExamples examples n1 noise1 = generatorFromExamples examples n2 noise2 \<and>
    (let c1 = fst (generatorFromExamples examples n1 noise1 h);
         h1 = snd (generatorFromExamples examples n1 noise1 h);
         c2 = fst (generatorFromExamples examples n2 noise2 h1);
         h2 = snd (generatorFromExamples examples n2 noise2 h1);
         h3 = write_array c1 els h2
     in c1 \<noteq> examples \<and> c2 \<noteq> examples \<and> c1 \<noteq> c2 \<and>
        arrays h1 c1 = arrays h examples \<and>
        arrays h2 c2 = arrays h examples \<and>
        contents c1 h2 = contents examples h \<and>
        contents c2 h2 = contents examples h \<and>
        arrays h3 c1 = els \<and>
        contents examples h3 = contents examples h \<and>
        contents c2 h3 = contents examples h)"
  using assms
  by (auto simp add: generatorFromExamples_def slice_def write_array_def contents_def Let_def)

text \<open>Two calls on the store with one array, then the first copy is emptied.\<close>

theorem generatorFromExamples_shallow_copy_witness:
  "(0::nat) < next_array store0 \<and>
   fst (generatorFromExamples 0 5 0 store0) = 1 \<and>
   fst (generatorFromExamples 0 9 1 (snd (generatorFromExamples 0 5 0 store0))) = 2 \<and>
   contents 0 (write_array 1 [] (snd (generatorFromExamples 0 9 1 (snd (generatorFromExamples 0 5 0 store0)))))
     = [\<lparr>ex_x = Num 1, ex_y = Num 2, label = Num 1\<rparr>] \<and>
   contents 2 (write_array 1 [] (snd (generatorFromExamples 0 9 1 (snd (generatorFromExamples 0 5 0 store0)))))
     = [\<lparr>ex_x = Num 1, ex_y = Num 2, label = Num 1\<rparr>] \<and>
   contents 1 (write_array 1 [] (snd (generatorFromExamples 0 9 1 (snd (generatorFromExamples 0 5 0 store0)))))
     = []"
proof -
  have a: "(0::nat) < next_array store0" by (simp add: store0_def)
  have c1: "fst (generatorFromExamples 0 5 0 store0) = 1"
    by (simp add: generatorFromExamples_def slice_def store0_def Let_def)
  have c2: "fst (generatorFromExamples 0 9 1 (snd (generatorFromExamples 0 5 0 store0))) = 2"
    by (simp add: generatorFromExamples_def slice_def store0_def Let_def)
  have c0: "contents 0 store0 = [\<lparr>ex_x = Num 1, ex_y = Num 2, label = Num 1\<rparr>]"
    by (simp add: contents_def store0_def)
  let ?h2 = "snd (generatorFromExamples 0 9 1 (snd (generatorFromExamples 0 5 0 store0)))"
  from generatorFromExamples_shallow_copy [OF a, of 5 0 9 1 "[]"]
  have "contents 0 (write_array 1 [] ?h2) = contents 0 store0"
    and "contents 2 (write_array 1 [] ?h2) = contents 0 store0"
    and "arrays (write_array 1 [] ?h2) 1 = []"
    unfolding Let_def c1 c2 by blast+
  then show ?thesis using a c1 c2 c0 by (simp add: contents_def)
qed

section \<open>parseCsvTextToExamples: which rows give a point\<close>

lemma row_example_spec: "row_example isRegression row = spec_row isRegression row"
  by (cases "row ''x''"; cases "row ''y''"; cases "row ''values''"; cases "row ''value''")
     (simp_all add: row_example_def spec_row_def coerced_def value_field_def Let_def)

lemma foldl_push:
  "foldl (\<lambda>out row. case f row of None \<Rightarrow> out | Some p \<Rightarrow> out @ [p]) acc rows =
   acc @ List.map_filter f rows"
  by (induction rows arbitrary: acc) (simp_all add: List.map_filter_simps split: option.split)

lemma try_block_spec:
  "try_block csvText isRegression =
     (case d3_csv_parse csvText of
        Inl e \<Rightarrow> Inl e
      | Inr rows \<Rightarrow> Inr (List.map_filter (spec_row isRegression) rows))"
proof -
  have "row_example isRegression = spec_row isRegression"
    by (rule ext) (rule row_example_spec)
  then show ?thesis
    by (simp add: try_block_def foldl_push split: sum.split)
qed

lemma parseCsvTextToExamples_result:
  "parseCsvTextToExamples csvText isRegression =
     Inr (case d3_csv_parse csvText of
            Inl e \<Rightarrow> ([], [(''Failed to parse CSV text'', e)])
          | Inr rows \<Rightarrow> (List.map_filter (spec_row isRegression) rows, []))"
  by (simp add: parseCsvTextToExamples_def try_block_spec split: sum.split)

lemma not_le_zero: "\<not> isNaN v \<Longrightarrow> (\<not> js_le v (Num 0)) = js_less (Num 0) v"
  by (cases v) auto

lemma parseRows_example: "parseRows example_text =
  [[''x'', ''y'', ''values''], [''1'', ''2'', ''0.5''], [''3'', ''4'', ''-0.2''], [''bad'', ''4'', ''1'']]"
  by code_simp

lemma parseFloat_examples:
  "parseFloat ''1'' = Num 1" "parseFloat ''2'' = Num 2" "parseFloat ''3'' = Num 3"
  "parseFloat ''4'' = Num 4" "parseFloat ''0.5'' = Num (1/2)" "parseFloat ''-0.2'' = Num (- 1/5)"
  "parseFloat ''bad'' = NaN"
  by (simp_all add: parseFloat_def read_sign_def is_space_def is_digit_def digits_value_def
      read_exponent_def Let_def)

lemma spec_row_examples:
  "spec_row isRegression (make_row [''x'', ''y'', ''values''] [''1'', ''2'', ''0.5'']) =
     Some \<lparr>ex_x = Num 1, ex_y = Num 2, label = (if isRegression then Num (1/2) else Num 1)\<rparr>"
  "spec_row isRegression (make_row [''x'', ''y'', ''values''] [''3'', ''4'', ''-0.2'']) =
     Some \<lparr>ex_x = Num 3, ex_y = Num 4, label = (if isRegression then Num (- 1/5) else Num (- 1))\<rparr>"
  "spec_row isRegression (make_row [''x'', ''y'', ''values''] [''bad'', ''4'', ''1'']) = None"
  by (simp_all add: spec_row_def coerced_def value_field_def make_row_def parseFloat_examples)

lemma d3_csv_parse_example: "d3_csv_parse example_text =
  Inr [make_row [''x'', ''y'', ''values''] [''1'', ''2'', ''0.5''],
       make_row [''x'', ''y'', ''values''] [''3'', ''4'', ''-0.2''],
       make_row [''x'', ''y'', ''values''] [''bad'', ''4'', ''1'']]"
  by (simp add: d3_csv_parse_def parseRows_example)

text \<open>
  Claim C3. For every text and flag \<open>isRegression\<close>, \<open>parseCsvTextToExamples\<close> returns, and
  when the parser returns rows its result holds, in the order of the rows, one point for
  each parsed row whose fields \<open>x\<close>, \<open>y\<close> and value (the column \<open>values\<close>, else the column
  \<open>value\<close>) are present and coerce to a number, and nothing for the other rows; nothing is
  then written to the console. The label of a point is the coerced value when
  \<open>isRegression\<close> is true, and otherwise \<open>-1\<close> when the value is at most zero and \<open>1\<close> when
  not, that is, for a number, when it is greater than zero. The text of the example, with
  \<open>isRegression\<close> false, gives exactly the points \<open>(1, 2)\<close> of label \<open>1\<close> and \<open>(3, 4)\<close> of
  label \<open>-1\<close>.
\<close>

theorem parseCsvTextToExamples_rows:
  "parseCsvTextToExamples csvText isRegression =
     Inr (case d3_csv_parse csvText of
            Inl e \<Rightarrow> ([], [(''Failed to parse CSV text'', e)])
          | Inr rows \<Rightarrow> (List.map_filter (spec_row isRegression) rows, [])) \<and>
   (\<forall>v. \<not> isNaN v \<longrightarrow> (\<not> js_le v (Num 0)) = js_less (Num 0) v) \<and>
   parseCsvTextToExamples example_text False =
     Inr ([\<lparr>ex_x = Num 1, ex_y = Num 2, label = Num 1\<rparr>,
           \<lparr>ex_x = Num 3, ex_y = Num 4, label = Num (- 1)\<rparr>], [])"
  by (simp add: parseCsvTextToExamples_result not_le_zero d3_csv_parse_example
      spec_row_examples List.map_filter_simps)

text \<open>The same text as a regression: the labels are the values \<open>0.5\<close> and \<open>-0.2\<close>.\<close>

theorem parseCsvTextToExamples_rows_witness:
  "\<not> isNaN (Num (1/2)) \<and> js_less (Num 0) (Num (1/2)) \<and> \<not> js_le (Num (1/2)) (Num 0) \<and>
   parseCsvTextToExamples example_text True =
     Inr ([\<lparr>ex_x = Num 1, ex_y = Num 2, label = Num (1/2)\<rparr>,
           \<lparr>ex_x = Num 3, ex_y = Num 4, label = Num (- 1/5)\<rparr>], [])"
  using parseCsvTextToExamples_rows [of example_text True]
  by (simp add: d3_csv_parse_example spec_row_examples List.map_filter_simps)

section \<open>parseCsvTextToExamples: a failure of the parser\<close>

lemma parseRows_proto: "parseRows proto_text = [[''__proto__'', ''__proto__''], [''1'', ''2'']]"
  by code_simp

lemma d3_csv_parse_proto:
  "d3_csv_parse proto_text =
     Inl ''SyntaxError: Duplicate __proto__ fields are not allowed in object literals''"
  by (simp add: d3_csv_parse_def parseRows_proto)

text \<open>
  Claim C9. \<open>parseCsvTextToExamples\<close> never lets an exception reach its caller: for every
  text and flag it returns. When \<open>d3.csv.parse\<close> throws, which it does on a header with two
  columns \<open>__proto__\<close>, the function returns the empty array, and the message with the
  exception has been written to the console.
\<close>

theorem parseCsvTextToExamples_catches:
  "(\<exists>out log. parseCsvTextToExamples csvText isRegression = Inr (out, log)) \<and>
   (\<forall>e. d3_csv_parse csvText = Inl e \<longrightarrow>
      parseCsvTextToExamples csvText isRegression = Inr ([], [(''Failed to parse CSV text'', e)]))"
  by (cases "d3_csv_parse csvText") (simp_all add: parseCsvTextToExamples_result)

text \<open>The text with two columns \<open>__proto__\<close>: the parser throws, the function returns.\<close>

theorem parseCsvTextToExamples_catches_witness:
  "d3_csv_parse proto_text =
     Inl ''SyntaxError: Duplicate __proto__ fields are not allowed in object literals'' \<and>
   parseCsvTextToExamples proto_text False =
     Inr ([], [(''Failed to parse CSV text'',
                ''SyntaxError: Duplicate __proto__ fields are not allowed in object literals'')])"
  using parseCsvTextToExamples_catches [of proto_text False] d3_csv_parse_proto
  by simp

end
